(* ===== verification/Prelude.thy ===== *)
theory Prelude
  imports Main "HOL-Library.Word"
begin

unbundle bit_operations_syntax

text \<open>
  Shared vocabulary of the development: the Rust machine types used by
  \<open>src/ironlight/src/instruction.rs\<close> as words of their width, the panics the code can
  raise as a datatype, the collections of lemmas the component theories feed to the
  simplifier, and the generic list facts about writing a run of equal elements into an
  array, which both the opcode table and the byte layout use.
\<close>

section \<open>Rust machine types\<close>

type_synonym u8 = "8 word"
type_synonym u32 = "32 word"
type_synonym i32 = "32 word"
type_synonym usize = nat

text \<open>
  A Rust panic is a value of the model.  \<open>IndexOutOfBounds\<close> is an array write
  \<open>arr[idx] = v\<close> with \<open>idx\<close> past the end (in a \<open>const fn\<close> this aborts the build);
  \<open>RemainderByZero\<close> is \<open>x % 0\<close> on an unsigned integer.
\<close>

datatype panic = IndexOutOfBounds | RemainderByZero

type_synonym 'a res = "panic + 'a"

named_theorems accessor_defs "definitions of the field accessors of an instruction"
named_theorems render_simps "rewrite rules that evaluate the disassembler's templates"

section \<open>Arrays as lists\<close>

text \<open>
  Rust's \<open>arr[idx] = v\<close> on a fixed-size array: a list update inside the bounds and a
  panic outside, where HOL's \<open>xs[i := v]\<close> would silently do nothing.
\<close>

definition array_set :: "'a list \<Rightarrow> nat \<Rightarrow> 'a \<Rightarrow> 'a list res" where
  "array_set xs i v = (if i < length xs then Inr (xs[i := v]) else Inl IndexOutOfBounds)"

text \<open>Rust's \<open>a % b\<close> on unsigned integers: a panic when \<open>b = 0\<close>.\<close>

definition rem_u8 :: "u8 \<Rightarrow> u8 \<Rightarrow> u8 res" where
  "rem_u8 a b = (if b = 0 then Inl RemainderByZero else Inr (a mod b))"

text \<open>Writing \<open>k\<close> copies of \<open>x\<close> from position \<open>i\<close> on, as a list expression.\<close>

definition write_run :: "'a list \<Rightarrow> nat \<Rightarrow> nat \<Rightarrow> 'a \<Rightarrow> 'a list" where
  "write_run xs i k x = take i xs @ replicate k x @ drop (i + k) xs"

lemma array_set_Inr [simp]: "i < length xs \<Longrightarrow> array_set xs i v = Inr (xs[i := v])"
  by (simp add: array_set_def)

lemma array_set_Inl [simp]: "\<not> i < length xs \<Longrightarrow> array_set xs i v = Inl IndexOutOfBounds"
  by (simp add: array_set_def)

lemma length_write_run [simp]: "i + k \<le> length xs \<Longrightarrow> length (write_run xs i k x) = length xs"
  by (simp add: write_run_def)

lemma write_run_0 [simp]: "write_run xs i 0 x = xs"
  by (simp add: write_run_def)

lemma take_write_run [simp]:
  "i + k \<le> length xs \<Longrightarrow> take (i + k) (write_run xs i k x) = take i xs @ replicate k x"
  by (simp add: write_run_def)

lemma drop_write_run [simp]:
  "i + k \<le> length xs \<Longrightarrow> i + k \<le> m \<Longrightarrow> drop m (write_run xs i k x) = drop m xs"
  by (simp add: write_run_def)

text \<open>A write at the head of a run, then the rest of the run after it.\<close>

lemma write_run_update_Suc:
  "i < length xs \<Longrightarrow> write_run (xs[i := x]) (Suc i) k x = write_run xs i (Suc k) x"
  by (simp add: write_run_def take_Suc_conv_app_nth drop_update_cancel)

section \<open>Words\<close>

lemma unat_and_3 [simp]: "unat ((w::u8) AND 3) = unat w mod 4"
proof -
  have "(3::u8) = mask 2" by (simp add: mask_eq_exp_minus_1)
  then have "w AND 3 = take_bit 2 w" by (simp add: take_bit_eq_mask)
  then show ?thesis by (simp add: take_bit_eq_mod unat_mod)
qed

lemma unat_drop_bit_u8 [simp]: "unat (drop_bit n (w::u8)) = unat w div 2 ^ n"
  by (subst unat_drop_bit_eq) (simp add: drop_bit_eq_div)

text \<open>Zero extension of a byte to 32 bits (Rust's \<open>x as i32\<close> on a \<open>u8\<close>) is non-negative.\<close>

lemma sint_ucast_u8 [simp]: "sint (ucast (w::u8) :: i32) = int (unat w)"
proof -
  have "uint w < 256" using uint_bounded [of w] by simp
  moreover have "- 2147483648 \<le> uint w"
    using uint_nonnegative [of w] by linarith
  ultimately have "signed_take_bit 31 (uint w) = uint w"
    by (simp add: signed_take_bit_int_eq_self_iff)
  then show ?thesis by (simp add: signed_ucast_eq)
qed

lemma unat_of_nat_u8: "n < 256 \<Longrightarrow> unat (of_nat n :: u8) = n"
  by (simp add: unsigned_of_nat take_bit_eq_mod)

lemma unat_u8_less [simp]: "unat (w::u8) < 256"
proof -
  have "unat w < 2 ^ LENGTH(8)" by (rule unsigned_less)
  then show ?thesis by simp
qed

text \<open>Counting the bytes whose value satisfies a predicate.\<close>

lemma card_u8_pred: "card {w::u8. P (unat w)} = card {k. k < 256 \<and> P k}"
proof -
  have "unat ` {w::u8. P (unat w)} = {k. k < 256 \<and> P k}"
  proof
    show "unat ` {w::u8. P (unat w)} \<subseteq> {k. k < 256 \<and> P k}" by auto
    show "{k. k < 256 \<and> P k} \<subseteq> unat ` {w::u8. P (unat w)}"
    proof
      fix k assume "k \<in> {k. k < 256 \<and> P k}"
      then have "unat (of_nat k :: u8) = k" and "P k" by (simp_all add: unat_of_nat_u8)
      then show "k \<in> unat ` {w::u8. P (unat w)}" by (metis (mono_tags) image_eqI mem_Collect_eq)
    qed
  qed
  moreover have "inj_on unat {w::u8. P (unat w)}"
    by (rule inj_onI) (simp add: word_unat_eq_iff)
  ultimately show ?thesis by (metis card_image)
qed

lemma bit_u8_high [simp]: "8 \<le> k \<Longrightarrow> \<not> bit (b::u8) k"
  using bit_imp_le_length [of b k] by auto

text \<open>A byte splits into two bits, two bits and four bits.\<close>

lemma nat_split_2_2_4: "(x::nat) = x mod 4 + 4 * (x div 4 mod 4) + 16 * (x div 16)"
proof -
  have "x div 4 div 4 = x div 16" by (simp add: div_mult2_eq [symmetric])
  moreover have "x = x mod 4 + 4 * (x div 4)" by simp
  moreover have "x div 4 = x div 4 mod 4 + 4 * (x div 4 div 4)" by simp
  ultimately show ?thesis by linarith
qed

lemma pack_2_2_4:
  assumes "a < 4" and "b < 4"
  shows "(a + 4 * b + 16 * c) mod 4 = (a::nat) \<and> (a + 4 * b + 16 * c) div 4 mod 4 = b \<and>
         (a + 4 * b + 16 * c) div 16 = c"
proof -
  have e1: "a + 4 * b + 16 * c = a + 4 * (b + 4 * c)" by simp
  have d4: "(a + 4 * (b + 4 * c)) div 4 = b + 4 * c" using assms(1) by simp
  have m4: "(a + 4 * (b + 4 * c)) mod 4 = a" using assms(1) by (simp only: mod_mult_self2) simp
  have m4b: "(b + 4 * c) mod 4 = b" using assms(2) by simp
  have "a + 4 * b + 16 * c = (a + 4 * b) + 16 * c" by simp
  moreover have "a + 4 * b < 16" using assms by simp
  ultimately have d16: "(a + 4 * b + 16 * c) div 16 = c" by simp
  show ?thesis using d4 m4 m4b d16 by (simp only: e1)
qed

lemma unat_Suc_less:
  fixes j k :: "'a::len word"
  assumes "j < k"
  shows "unat (j + 1) = Suc (unat j)"
proof -
  have "unat j < unat k" using assms by (simp add: word_less_nat_alt)
  moreover have "unat k < 2 ^ LENGTH('a)" by simp
  ultimately have "unat j + 1 < 2 ^ LENGTH('a)" by linarith
  then show ?thesis by (simp add: unat_word_ariths)
qed

end
