(* ===== verification/Opcode_Table.thy ===== *)
theory Opcode_Table
  imports Prelude
begin

text \<open>
  The opcode distribution of \<open>src/ironlight/src/instruction.rs\<close>: the weight list
  \<open>NAMES_FREQS\<close> (thirty mnemonics, each with a \<open>u8\<close> frequency), the \<open>const fn\<close>
  \<open>build_instruction_array\<close> that lays the mnemonics out in a 256-slot table by two
  nested \<open>while\<close> loops, and the table \<open>INSTR_NAMES\<close> it produces at compile time.

  The inner loop (\<open>while j < freq\<close>) is \<open>fill_name\<close>, the outer loop
  (\<open>while i < NAMES_FREQS.len()\<close>) is \<open>fill_all\<close>; each carries the loop variables
  of the source as a tuple and is defined by \<^theory_text>\<open>function\<close> with a measure
  (\<open>freq - j\<close>, \<open>len - i\<close>), so both loops are proved to terminate.  An array write
  past slot 255 is the panic \<open>IndexOutOfBounds\<close>, which in a \<open>const fn\<close> stops the
  build.  The reference behaviour is \<open>flatten_weights\<close>: each mnemonic repeated by its
  weight, in declaration order.  The main lemma says that the loops compute the
  reference table padded with the initial empty strings, or panic exactly when the
  weights sum past 256.
\<close>

section \<open>The weight list\<close>

definition NAMES_FREQS :: "(string \<times> u8) list" where
  "NAMES_FREQS = [
    (''IADD_RS'', 16), (''IADD_M'', 7), (''ISUB_R'', 16), (''ISUB_M'', 7),
    (''IMUL_R'', 16), (''IMUL_M'', 4), (''IMULH_R'', 4), (''IMULH_M'', 1),
    (''ISMULH_R'', 4), (''ISMULH_M'', 1), (''IMUL_RCP'', 8), (''INEG_R'', 2),
    (''IXOR_R'', 15), (''IXOR_M'', 5), (''IROR_R'', 8), (''IROL_R'', 2),
    (''ISWAP_R'', 4), (''FSWAP_R'', 4), (''FADD_R'', 16), (''FADD_M'', 5),
    (''FSUB_R'', 16), (''FSUB_M'', 5), (''FSCAL_R'', 6), (''FMUL_R'', 32),
    (''FDIV_M'', 4), (''FSQRT_R'', 6), (''CBRANCH'', 25), (''CFROUND'', 1),
    (''ISTORE'', 16), (''NOP'', 0)]"

section \<open>The table construction\<close>

text \<open>
  The inner loop: state \<open>(arr, idx, j)\<close>; while \<open>j < freq\<close>, write \<open>name\<close> at
  \<open>arr[idx]\<close>, then \<open>idx += 1\<close> and \<open>j += 1\<close>.  \<open>j\<close> is a \<open>u8\<close> like
  \<open>freq\<close>; it never wraps, since it is incremented only below \<open>freq\<close>.
\<close>

function fill_name :: "string \<Rightarrow> u8 \<Rightarrow> string list \<times> usize \<times> u8 \<Rightarrow>
    (string list \<times> usize \<times> u8) res" where
  "fill_name name freq (arr, idx, j) =
     (if j < freq then
        (case array_set arr idx name of
           Inl e \<Rightarrow> Inl e
         | Inr arr' \<Rightarrow> fill_name name freq (arr', idx + 1, j + 1))
      else Inr (arr, idx, j))"
  by pat_completeness auto
termination
proof (relation "measure (\<lambda>(name, freq, arr, idx, j). unat freq - unat j)")
  fix name freq arr idx j arr'
  assume "j < (freq::u8)"
  then have "unat (j + 1) = Suc (unat j)" and "unat j < unat freq"
    by (simp_all add: unat_Suc_less word_less_nat_alt)
  then show "((name, freq, arr', idx + 1, j + 1), name, freq, arr, idx, j)
      \<in> measure (\<lambda>(name, freq, arr, idx, j). unat freq - unat j)"
    by simp
qed simp

text \<open>
  The outer loop: state \<open>(arr, idx, i)\<close>; while \<open>i < NAMES_FREQS.len()\<close>, take the
  entry \<open>(name, freq)\<close>, run the inner loop from \<open>j = 0\<close>, then \<open>i += 1\<close>.
\<close>

function fill_all :: "(string \<times> u8) list \<Rightarrow> string list \<times> usize \<times> usize \<Rightarrow>
    (string list \<times> usize \<times> usize) res" where
  "fill_all nf (arr, idx, i) =
     (if i < length nf then
        (case nf ! i of (name, freq) \<Rightarrow>
           (case fill_name name freq (arr, idx, 0) of
              Inl e \<Rightarrow> Inl e
            | Inr (arr', idx', j) \<Rightarrow> fill_all nf (arr', idx', i + 1)))
      else Inr (arr, idx, i))"
  by pat_completeness auto
termination
  by (relation "measure (\<lambda>(nf, arr, idx, i). length nf - i)") auto

text \<open>
  \<open>build_instruction_array\<close> reads the global \<open>NAMES_FREQS\<close>; the model takes the
  weight list as a parameter so that other lists can be run through the same loops.
\<close>

definition build_instruction_array_of :: "(string \<times> u8) list \<Rightarrow> string list res" where
  "build_instruction_array_of nf =
     (case fill_all nf (replicate 256 '''', 0, 0) of
        Inl e \<Rightarrow> Inl e
      | Inr (arr, idx, i) \<Rightarrow> Inr arr)"

definition build_instruction_array :: "string list res" where
  "build_instruction_array = build_instruction_array_of NAMES_FREQS"

text \<open>
  \<open>const INSTR_NAMES = build_instruction_array()\<close>: a panic during constant
  evaluation is a compile error, so no program has a table in that case; the model's
  \<open>Inl\<close> branch is the empty list, and \<open>build_instruction_array_eq\<close> below shows
  that the branch is not taken.
\<close>

definition INSTR_NAMES :: "string list" where
  "INSTR_NAMES = (case build_instruction_array of Inr arr \<Rightarrow> arr | Inl e \<Rightarrow> [])"

section \<open>The reference table\<close>

definition weight_total :: "(string \<times> u8) list \<Rightarrow> nat" where
  "weight_total nf = sum_list (map (\<lambda>(n, f). unat f) nf)"

definition flatten_weights :: "(string \<times> u8) list \<Rightarrow> string list" where
  "flatten_weights nf = concat (map (\<lambda>(n, f). replicate (unat f) n) nf)"

section \<open>Lemmas\<close>

lemma weight_total_simps [simp]:
  "weight_total [] = 0" "weight_total ((n, f) # nf) = unat f + weight_total nf"
  by (simp_all add: weight_total_def)

lemma flatten_weights_simps [simp]:
  "flatten_weights [] = []" "flatten_weights ((n, f) # nf) = replicate (unat f) n @ flatten_weights nf"
  by (simp_all add: flatten_weights_def)

lemma length_flatten_weights [simp]: "length (flatten_weights nf) = weight_total nf"
  by (induction nf) auto

declare fill_name.simps [simp del] fill_all.simps [simp del]

text \<open>The inner loop writes a run of \<open>freq - j\<close> copies, or panics if it leaves the array.\<close>

lemma fill_name_eq:
  "j \<le> freq \<Longrightarrow> fill_name name freq (arr, idx, j) =
     (let k = unat freq - unat j in
      if k \<noteq> 0 \<and> length arr < idx + k then Inl IndexOutOfBounds
      else Inr (write_run arr idx k name, idx + k, freq))"
proof (induction "unat freq - unat j" arbitrary: arr idx j)
  case 0
  then have "j = freq" by (simp add: word_le_nat_alt word_unat_eq_iff)
  then show ?case by (simp add: fill_name.simps)
next
  case (Suc m)
  then have lt: "j < freq" by (simp add: word_less_nat_alt)
  then have k: "unat (j + 1) = Suc (unat j)" "unat j < unat freq"
    by (simp_all add: unat_Suc_less word_less_nat_alt)
  have le: "j + 1 \<le> freq" and m: "m = unat freq - unat (j + 1)"
    using k Suc.hyps(2) by (simp_all add: word_le_nat_alt)
  show ?case
  proof (cases "idx < length arr")
    case False
    with lt k show ?thesis by (simp add: fill_name.simps Let_def)
  next
    case in_range: True
    have "fill_name name freq (arr, idx, j) = fill_name name freq (arr[idx := name], Suc idx, j + 1)"
      using lt in_range by (simp add: fill_name.simps [of name freq arr idx j])
    also have "\<dots> = (if m \<noteq> 0 \<and> length arr < Suc idx + m then Inl IndexOutOfBounds
        else Inr (write_run (arr[idx := name]) (Suc idx) m name, Suc idx + m, freq))"
      using Suc.hyps(1) [OF m le, of "arr[idx := name]" "Suc idx"] by (simp add: Let_def m [symmetric])
    finally show ?thesis
      using in_range by (simp add: Let_def write_run_update_Suc Suc.hyps(2) [symmetric])
  qed
qed

text \<open>
  The outer loop, from entry \<open>i\<close> on: the runs of the remaining entries, one after
  the other, or a panic exactly when they do not fit.
\<close>

lemma fill_all_eq:
  "idx \<le> length arr \<Longrightarrow> fill_all nf (arr, idx, i) =
     (let s = weight_total (drop i nf) in
      if length arr < idx + s then Inl IndexOutOfBounds
      else Inr (take idx arr @ flatten_weights (drop i nf) @ drop (idx + s) arr, idx + s,
                max i (length nf)))"
proof (induction "length nf - i" arbitrary: arr idx i)
  case 0
  then show ?case by (simp add: fill_all.simps [of nf arr idx i])
next
  case (Suc m)
  then have lt: "i < length nf" by simp
  obtain name freq where e: "nf ! i = (name, freq)" by fastforce
  have d: "drop i nf = (name, freq) # drop (Suc i) nf"
    using lt e by (metis Cons_nth_drop_Suc)
  let ?k = "unat freq"
  show ?case
  proof (cases "?k \<noteq> 0 \<and> length arr < idx + ?k")
    case True
    with lt e d show ?thesis
      by (simp add: fill_all.simps [of nf arr idx i] fill_name_eq Let_def)
  next
    case False
    with Suc.prems have fit: "idx + ?k \<le> length arr" by auto
    have "fill_all nf (arr, idx, i) = fill_all nf (write_run arr idx ?k name, idx + ?k, Suc i)"
      using lt e fit by (simp add: fill_all.simps [of nf arr idx i] fill_name_eq Let_def)
    also have "\<dots> = (let s = weight_total (drop (Suc i) nf) in
      if length arr < idx + ?k + s then Inl IndexOutOfBounds
      else Inr (take (idx + ?k) (write_run arr idx ?k name) @ flatten_weights (drop (Suc i) nf) @
                drop (idx + ?k + s) (write_run arr idx ?k name), idx + ?k + s, max (Suc i) (length nf)))"
      using Suc.hyps(1) [where arr = "write_run arr idx ?k name" and idx = "idx + ?k" and i = "Suc i"] Suc.hyps(2) fit
      by simp
    finally show ?thesis
      using fit d lt by (simp add: Let_def add.assoc)
  qed
qed

subsection \<open>The reference table\<close>

lemma weight_total_append [simp]: "weight_total (xs @ ys) = weight_total xs + weight_total ys"
  by (simp add: weight_total_def)

lemma flatten_weights_append [simp]:
  "flatten_weights (xs @ ys) = flatten_weights xs @ flatten_weights ys"
  by (simp add: flatten_weights_def)

lemma set_flatten_weights: "set (flatten_weights nf) = {n. \<exists>f. (n, f) \<in> set nf \<and> f \<noteq> 0}"
  by (induction nf) (auto simp: unat_eq_zero)

lemma count_flatten_weights:
  "length (filter ((=) n) (flatten_weights nf)) =
     sum_list (map (\<lambda>(m, f). if m = n then unat f else 0) nf)"
  by (induction nf) (auto simp: filter_replicate)

lemma sum_weights_distinct:
  "distinct (map fst nf) \<Longrightarrow> (n, f) \<in> set nf \<Longrightarrow>
     sum_list (map (\<lambda>(m, g). if m = n then unat g else 0) nf) = unat f"
proof (induction nf)
  case Nil
  then show ?case by simp
next
  case (Cons e nf)
  obtain m g where e: "e = (m, g)" by fastforce
  show ?case
  proof (cases "m = n")
    case True
    with Cons.prems e have "f = g" and "\<forall>(m', g') \<in> set nf. m' \<noteq> n"
      by (auto simp: rev_image_eqI)
    then have "sum_list (map (\<lambda>(m, g). if m = n then unat g else 0) nf) = 0"
      by (induction nf) auto
    with True e \<open>f = g\<close> show ?thesis by simp
  next
    case False
    with Cons e show ?thesis by simp
  qed
qed

lemma nth_flatten_weights:
  assumes "k < length nf" and "weight_total (take k nf) \<le> p" and "p < weight_total (take (Suc k) nf)"
  shows "flatten_weights nf ! p = fst (nf ! k)"
proof -
  obtain n f where e: "nf ! k = (n, f)" by fastforce
  have split: "nf = take k nf @ (n, f) # drop (Suc k) nf"
    using assms(1) e by (metis id_take_nth_drop)
  have tk: "weight_total (take (Suc k) nf) = weight_total (take k nf) + unat f"
    using assms(1) e by (simp add: take_Suc_conv_app_nth)
  have "flatten_weights nf =
      flatten_weights (take k nf) @ replicate (unat f) n @ flatten_weights (drop (Suc k) nf)"
    by (subst split) simp
  moreover have "p - weight_total (take k nf) < unat f"
    using assms(2,3) tk by linarith
  ultimately show ?thesis
    using assms(2) e by (simp add: nth_append)
qed

lemma weight_total_NAMES_FREQS: "weight_total NAMES_FREQS = 256"
  by (simp add: NAMES_FREQS_def)

subsection \<open>The loops against the reference\<close>

lemma build_instruction_array_of_fit:
  "weight_total nf \<le> 256 \<Longrightarrow>
     build_instruction_array_of nf = Inr (flatten_weights nf @ replicate (256 - weight_total nf) '''')"
  by (simp add: build_instruction_array_of_def fill_all_eq Let_def)

lemma INSTR_NAMES_flatten: "INSTR_NAMES = flatten_weights NAMES_FREQS"
  by (simp add: INSTR_NAMES_def build_instruction_array_def build_instruction_array_of_fit
      weight_total_NAMES_FREQS)

lemma length_INSTR_NAMES [simp]: "length INSTR_NAMES = 256"
  by (simp add: INSTR_NAMES_flatten weight_total_NAMES_FREQS)

lemma INSTR_NAMES_mem:
  "p < 256 \<Longrightarrow> \<exists>f. (INSTR_NAMES ! p, f) \<in> set NAMES_FREQS \<and> f \<noteq> 0"
proof -
  assume "p < 256"
  then have "INSTR_NAMES ! p \<in> set (flatten_weights NAMES_FREQS)"
    by (simp add: INSTR_NAMES_flatten [symmetric])
  then show ?thesis by (auto simp: set_flatten_weights)
qed

lemma NAMES_FREQS_names:
  "(n, f) \<in> set NAMES_FREQS \<Longrightarrow> n \<noteq> [] \<and> CHR '' '' \<notin> set n"
  by (auto simp: NAMES_FREQS_def)

lemma INSTR_NAMES_nth:
  "k < length NAMES_FREQS \<Longrightarrow> weight_total (take k NAMES_FREQS) \<le> p \<Longrightarrow>
     p < weight_total (take (Suc k) NAMES_FREQS) \<Longrightarrow> INSTR_NAMES ! p = fst (NAMES_FREQS ! k)"
  by (simp add: INSTR_NAMES_flatten nth_flatten_weights)

lemma count_INSTR_NAMES:
  "(n, f) \<in> set NAMES_FREQS \<Longrightarrow> length (filter ((=) n) INSTR_NAMES) = unat f"
proof -
  assume m: "(n, f) \<in> set NAMES_FREQS"
  have "distinct (map fst NAMES_FREQS)"
    by (simp add: NAMES_FREQS_def)
  with m show ?thesis
    by (simp add: INSTR_NAMES_flatten count_flatten_weights sum_weights_distinct)
qed

lemma card_opcodes_name:
  "card {op::u8. INSTR_NAMES ! unat op = n} = length (filter ((=) n) INSTR_NAMES)"
  using card_u8_pred [of "\<lambda>k. INSTR_NAMES ! k = n"]
  by (simp add: length_filter_conv_card eq_commute)

section \<open>Properties of the opcode table\<close>

text \<open>
  C1: the two nested loops of \<open>build_instruction_array\<close>, run on any weight list,
  either write past the 256-slot array and panic, exactly when the weights sum past
  256, or produce the reference table (each mnemonic repeated by its weight, in
  declaration order) followed by the untouched empty strings of the initial array.
\<close>

theorem build_instruction_array_refines:
  "build_instruction_array_of nf =
     (if weight_total nf \<le> 256
      then Inr (flatten_weights nf @ replicate (256 - weight_total nf) '''')
      else Inl IndexOutOfBounds)"
  by (simp add: build_instruction_array_of_def fill_all_eq Let_def)

text \<open>
  C2: the declared weights sum to exactly 256, so the table is built without a panic,
  has 256 entries and is the reference table of \<open>NAMES_FREQS\<close>, with no empty slot
  left over.
\<close>

theorem build_instruction_array_eq:
  "weight_total NAMES_FREQS = 256 \<and>
   build_instruction_array = Inr (flatten_weights NAMES_FREQS) \<and>
   length (flatten_weights NAMES_FREQS) = 256"
  by (simp add: build_instruction_array_def build_instruction_array_of_fit weight_total_NAMES_FREQS)

text \<open>
  C3: every opcode byte resolves to a non-empty mnemonic, and that mnemonic is one of
  the declared ones with a non-zero weight (so \<open>NOP\<close>, of weight 0, is never drawn).
\<close>

theorem mnemonic_total:
  "INSTR_NAMES ! unat (op::u8) \<noteq> [] \<and> (\<exists>f. (INSTR_NAMES ! unat op, f) \<in> set NAMES_FREQS \<and> f \<noteq> 0)"
  using INSTR_NAMES_mem [OF unat_u8_less [of op]] NAMES_FREQS_names by blast

text \<open>
  C4: the distribution: for every declared mnemonic, exactly as many of the 256 opcode
  bytes resolve to it as its declared weight.
\<close>

theorem opcode_distribution:
  assumes "(n, f) \<in> set NAMES_FREQS"
  shows "card {op::u8. INSTR_NAMES ! unat op = n} = unat f"
  by (simp add: card_opcodes_name count_INSTR_NAMES [OF assms])

theorem opcode_distribution_witness:
  "(''FMUL_R'', 32) \<in> set NAMES_FREQS \<and> card {op::u8. INSTR_NAMES ! unat op = ''FMUL_R''} = 32"
proof -
  have m: "(''FMUL_R'', 32) \<in> set NAMES_FREQS" by (simp add: NAMES_FREQS_def)
  show ?thesis using opcode_distribution [OF m] m by simp
qed

text \<open>
  C5: the table is laid out in declaration order: the opcodes from the sum of the
  weights before entry \<open>k\<close> up to that sum plus the weight of entry \<open>k\<close> all resolve
  to the mnemonic of entry \<open>k\<close>.
\<close>

theorem opcode_ranges:
  assumes "k < length NAMES_FREQS"
    and "weight_total (take k NAMES_FREQS) \<le> unat op"
    and "unat op < weight_total (take (Suc k) NAMES_FREQS)"
  shows "INSTR_NAMES ! unat op = fst (NAMES_FREQS ! k)"
  using assms by (rule INSTR_NAMES_nth)

theorem opcode_ranges_witness:
  "1 < length NAMES_FREQS \<and> weight_total (take 1 NAMES_FREQS) \<le> unat (20::u8) \<and>
   unat (20::u8) < weight_total (take (Suc 1) NAMES_FREQS) \<and> INSTR_NAMES ! unat (20::u8) = ''IADD_M''"
proof -
  have h: "1 < length NAMES_FREQS" "weight_total (take 1 NAMES_FREQS) \<le> unat (20::u8)"
    "unat (20::u8) < weight_total (take (Suc 1) NAMES_FREQS)"
    by (simp_all add: NAMES_FREQS_def)
  show ?thesis using opcode_ranges [OF h] h by (simp add: NAMES_FREQS_def)
qed

end
