(* ===== verification/Rust_Fmt.thy ===== *)
theory Rust_Fmt
  imports Prelude
begin

text \<open>
  The part of Rust's \<open>core::fmt\<close> the disassembler relies on: \<open>{}\<close> applied to a
  \<open>u8\<close>, a \<open>u32\<close> and an \<open>i32\<close> prints the value in decimal, without leading zeros,
  with a leading \<open>-\<close> for a negative \<open>i32\<close>.  This is standard-library behaviour, not
  code of the repository; it is modelled here so that the templates of
  \<open>Disassembler\<close> produce concrete strings.  The lemmas show that the printing is
  a decimal numeral (only digits, never empty), that it can be read back
  (\<open>dec_value\<close>, \<open>parse_i32\<close>), hence is injective; the reader of whole lines that
  uses them is in \<open>Disassembler_Readback\<close>.
\<close>

definition digit_char :: "nat \<Rightarrow> char" where
  "digit_char d = ''0123456789'' ! d"

fun dec_nat :: "nat \<Rightarrow> string" where
  "dec_nat n = (if n < 10 then [digit_char n] else dec_nat (n div 10) @ [digit_char (n mod 10)])"

declare dec_nat.simps [simp del]

definition display_u8 :: "u8 \<Rightarrow> string" where
  "display_u8 w = dec_nat (unat w)"

definition display_u32 :: "u32 \<Rightarrow> string" where
  "display_u32 w = dec_nat (unat w)"

definition display_i32 :: "i32 \<Rightarrow> string" where
  "display_i32 w =
     (if sint w < 0 then CHR ''-'' # dec_nat (nat (- sint w)) else dec_nat (nat (sint w)))"

text \<open>Reading a decimal numeral back.\<close>

definition is_digit :: "char \<Rightarrow> bool" where
  "is_digit c \<longleftrightarrow> (48::nat) \<le> of_char c \<and> of_char c < (58::nat)"

definition digit_val :: "char \<Rightarrow> nat" where
  "digit_val c = of_char c - 48"

definition dec_value :: "string \<Rightarrow> nat" where
  "dec_value cs = foldl (\<lambda>n c. 10 * n + digit_val c) 0 cs"

definition parse_i32 :: "string \<Rightarrow> int" where
  "parse_i32 cs =
     (case cs of c # r \<Rightarrow> if c = CHR ''-'' then - int (dec_value r) else int (dec_value cs)
      | [] \<Rightarrow> 0)"

subsection \<open>Digits\<close>

lemma of_char_digit_char:
  "d < 10 \<Longrightarrow> of_char (digit_char d) = (48::nat) + d"
proof -
  assume "d < 10"
  then have "d = 0 \<or> d = 1 \<or> d = 2 \<or> d = 3 \<or> d = 4 \<or> d = 5 \<or> d = 6 \<or> d = 7 \<or> d = 8 \<or> d = 9"
    by arith
  then show ?thesis by (elim disjE) (simp_all add: digit_char_def)
qed

lemma is_digit_digit_char [simp]: "d < 10 \<Longrightarrow> is_digit (digit_char d)"
  using of_char_digit_char [of d] by (simp add: is_digit_def)

lemma digit_val_digit_char [simp]: "d < 10 \<Longrightarrow> digit_val (digit_char d) = d"
  using of_char_digit_char [of d] by (simp add: digit_val_def)

lemma minus_not_digit [simp]: "\<not> is_digit CHR ''-''"
  by (simp add: is_digit_def)

subsection \<open>Shape of a printed number\<close>

lemma dec_nat_digits: "\<forall>c \<in> set (dec_nat n). is_digit c"
proof (induction n rule: dec_nat.induct)
  case (1 n)
  then show ?case by (subst dec_nat.simps) auto
qed

lemma dec_nat_not_Nil [simp]: "dec_nat n \<noteq> []"
  by (subst dec_nat.simps) simp

lemma dec_nat_hd_digit: "dec_nat n = c # r \<Longrightarrow> is_digit c"
  using dec_nat_digits [of n] by (metis list.set_intros(1))

lemma dec_value_append: "dec_value (xs @ ys) = foldl (\<lambda>n c. 10 * n + digit_val c) (dec_value xs) ys"
  by (simp add: dec_value_def)

text \<open>Round trip: reading the printed numeral gives the number back.\<close>

lemma dec_value_dec_nat [simp]: "dec_value (dec_nat n) = n"
proof (induction n rule: dec_nat.induct)
  case (1 n)
  show ?case
  proof (cases "n < 10")
    case True
    then show ?thesis by (subst dec_nat.simps) (simp add: dec_value_def)
  next
    case False
    then have "dec_value (dec_nat n) = 10 * (n div 10) + n mod 10"
      using "1.IH" by (subst dec_nat.simps) (simp add: dec_value_append)
    then show ?thesis by simp
  qed
qed

lemma dec_nat_inj: "dec_nat a = dec_nat b \<Longrightarrow> a = b"
  by (metis dec_value_dec_nat)

lemma parse_i32_display_i32 [simp]: "parse_i32 (display_i32 w) = sint w"
proof (cases "sint w < 0")
  case True
  then show ?thesis by (simp add: display_i32_def parse_i32_def)
next
  case False
  obtain c r where cr: "dec_nat (nat (sint w)) = c # r"
    by (cases "dec_nat (nat (sint w))") auto
  then have "c \<noteq> CHR ''-''" using dec_nat_hd_digit by fastforce
  then have "parse_i32 (display_i32 w) = int (dec_value (dec_nat (nat (sint w))))"
    using False cr by (simp add: display_i32_def parse_i32_def)
  with False show ?thesis by simp
qed

end
