(* ===== verification/Disassembler.thy ===== *)
theory Disassembler
  imports Instruction Opcode_Table Rust_Fmt
begin

text \<open>
  The disassembler: \<open>impl fmt::Display for Instruction\<close> of
  \<open>src/ironlight/src/instruction.rs\<close>.  It first reduces \<open>dst\<close> and \<open>src\<close> modulo
  \<open>REGISTER_COUNT as u8\<close> (a \<open>u8\<close> remainder, which panics on a zero divisor), then
  matches the mnemonic \<open>INSTR_NAMES[opcode]\<close> against string literals and writes one
  template per arm.  \<open>instruction_fmt\<close> is the whole method: it returns the panic or the
  text the \<open>write!\<close> calls produce (the formatter's own I/O errors belong to the caller's
  sink and are not modelled).  \<open>render_match\<close> is the \<open>match\<close> expression, given the
  two reduced indices.

  The lemmas show: the method panics exactly when \<open>REGISTER_COUNT\<close> is a multiple of
  256 and otherwise always produces text; for a register count in 1..255 each family
  renders its template with the indices reduced modulo the count (the subtract special
  case included); the first word of every line is the instruction's mnemonic; and no
  opcode of the table falls to the default arm.  The full read-back of a line is in
  \<open>Disassembler_Readback\<close>.
\<close>

section \<open>The method\<close>

definition TWO_REG_NAMES :: "string list" where
  "TWO_REG_NAMES = [''IADD_RS'', ''IMUL_R'', ''IMULH_R'', ''ISMULH_R'', ''IMUL_RCP'', ''IXOR_R'',
     ''IROR_R'', ''IROL_R'', ''ISWAP_R'', ''FSWAP_R'', ''FADD_R'', ''FSUB_R'', ''FSCAL_R'', ''FMUL_R'',
     ''FSQRT_R'']"

definition REG_MEM_NAMES :: "string list" where
  "REG_MEM_NAMES = [''IADD_M'', ''ISUB_M'', ''IMUL_M'', ''IMULH_M'', ''ISMULH_M'', ''IXOR_M'',
     ''FSUB_M'', ''FADD_M'', ''FDIV_M'']"

definition render_match :: "vm_config \<Rightarrow> instruction \<Rightarrow> u8 \<Rightarrow> u8 \<Rightarrow> string \<Rightarrow> string" where
  "render_match cfg i dst_index src_index name =
     (if name = ''ISUB_R'' then
        (if dst_index \<noteq> src_index
         then ''ISUB_R r'' @ display_u8 dst_index @ '', r'' @ display_u8 src_index
         else ''ISUB_R r'' @ display_u8 dst_index @ '', '' @ display_u32 (get_imm32 i))
      else if name = ''ISTORE'' then
        ''ISTORE '' @ get_address_reg_dst cfg i @ ''[r'' @ display_u8 dst_index @ '' '' @
          display_i32 (get_imm32 i) @ ''], r'' @ display_u8 src_index
      else if name \<in> set TWO_REG_NAMES then
        name @ '' r'' @ display_u8 dst_index @ '', r'' @ display_u8 src_index
      else if name \<in> set REG_MEM_NAMES then
        name @ '' r'' @ display_u8 dst_index @ '', [r'' @ display_u8 src_index @ '']''
      else if name = ''CBRANCH'' then ''CBRANCH '' @ display_u32 (imm32 i)
      else if name = ''CFROUND'' then ''CFROUND '' @ display_u8 (dst i)
      else if name = ''INEG_R'' then ''INEG_R r'' @ display_u8 (dst i)
      else if name = ''NOP'' then ''NOP''
      else name)"

definition instruction_fmt :: "vm_config \<Rightarrow> instruction \<Rightarrow> string res" where
  "instruction_fmt cfg i =
     (case rem_u8 (dst i) (of_nat (REGISTER_COUNT cfg)) of
        Inl e \<Rightarrow> Inl e
      | Inr dst_index \<Rightarrow>
          (case rem_u8 (src i) (of_nat (REGISTER_COUNT cfg)) of
             Inl e \<Rightarrow> Inl e
           | Inr src_index \<Rightarrow>
               Inr (render_match cfg i dst_index src_index (INSTR_NAMES ! unat (opcode i)))))"

section \<open>The abstract specification of the rendering\<close>

text \<open>
  The rendering as the specification states it: a closed set of families, one template
  per family, the register fields reduced modulo the register count \<open>n\<close> in natural
  numbers, the store space from the abstract \<open>store_space\<close>.  \<open>classify\<close> assigns the
  family of a mnemonic; the default family \<open>Bare\<close> prints the mnemonic alone.
\<close>

datatype render_family =
  Two_Reg | Reg_Mem | Sub_Special | Store | Cond_Branch | Round_Ctl | Negate | No_Op | Bare

definition classify :: "string \<Rightarrow> render_family" where
  "classify name =
     (if name = ''ISUB_R'' then Sub_Special
      else if name = ''ISTORE'' then Store
      else if name \<in> set TWO_REG_NAMES then Two_Reg
      else if name \<in> set REG_MEM_NAMES then Reg_Mem
      else if name = ''CBRANCH'' then Cond_Branch
      else if name = ''CFROUND'' then Round_Ctl
      else if name = ''INEG_R'' then Negate
      else if name = ''NOP'' then No_Op
      else Bare)"

fun spec_line :: "nat \<Rightarrow> int \<Rightarrow> instruction \<Rightarrow> string \<Rightarrow> render_family \<Rightarrow> string" where
  "spec_line n thr i name Two_Reg =
     name @ '' r'' @ dec_nat (unat (dst i) mod n) @ '', r'' @ dec_nat (unat (src i) mod n)"
| "spec_line n thr i name Reg_Mem =
     name @ '' r'' @ dec_nat (unat (dst i) mod n) @ '', [r'' @ dec_nat (unat (src i) mod n) @ '']''"
| "spec_line n thr i name Sub_Special =
     ''ISUB_R r'' @ dec_nat (unat (dst i) mod n) @
       (if unat (dst i) mod n = unat (src i) mod n then '', '' @ dec_nat (unat (imm32 i))
        else '', r'' @ dec_nat (unat (src i) mod n))"
| "spec_line n thr i name Store =
     ''ISTORE '' @ space_label (store_space thr (unat (mod_byte i))) @ ''[r'' @
       dec_nat (unat (dst i) mod n) @ '' '' @ display_i32 (imm32 i) @ ''], r'' @
       dec_nat (unat (src i) mod n)"
| "spec_line n thr i name Cond_Branch = ''CBRANCH '' @ dec_nat (unat (imm32 i))"
| "spec_line n thr i name Round_Ctl = ''CFROUND '' @ dec_nat (unat (dst i))"
| "spec_line n thr i name Negate = ''INEG_R r'' @ dec_nat (unat (dst i))"
| "spec_line n thr i name No_Op = ''NOP''"
| "spec_line n thr i name Bare = name"

section \<open>Lemmas\<close>

text \<open>The divisor \<open>REGISTER_COUNT as u8\<close> is the count modulo 256.\<close>

lemma unat_register_count: "unat (of_nat n :: u8) = n mod 256"
  by (simp add: unsigned_of_nat take_bit_eq_mod)

lemma register_count_zero_iff: "(of_nat n :: u8) = 0 \<longleftrightarrow> n mod 256 = 0"
  by (metis unat_register_count unat_eq_zero)

lemma instruction_fmt_Inr:
  "REGISTER_COUNT cfg mod 256 \<noteq> 0 \<Longrightarrow>
     instruction_fmt cfg i = Inr (render_match cfg i (dst i mod of_nat (REGISTER_COUNT cfg))
       (src i mod of_nat (REGISTER_COUNT cfg)) (INSTR_NAMES ! unat (opcode i)))"
  by (simp add: instruction_fmt_def rem_u8_def register_count_zero_iff)

text \<open>For a count below 256, the reduced index printed is the field modulo the count.\<close>

lemma display_reduced:
  "0 < n \<Longrightarrow> n < 256 \<Longrightarrow> display_u8 (w mod of_nat n) = dec_nat (unat w mod n)"
  by (simp add: display_u8_def unat_mod unat_register_count)

lemma reduced_eq_iff:
  "0 < n \<Longrightarrow> n < 256 \<Longrightarrow> (a mod of_nat n = b mod (of_nat n :: u8)) \<longleftrightarrow> unat a mod n = unat b mod n"
  by (simp add: word_unat_eq_iff unat_mod unat_register_count)

lemma special_names [simp]:
  "''ISUB_R'' \<notin> set TWO_REG_NAMES" "''ISTORE'' \<notin> set TWO_REG_NAMES"
  "''ISUB_R'' \<notin> set REG_MEM_NAMES" "''ISTORE'' \<notin> set REG_MEM_NAMES"
  "''CBRANCH'' \<notin> set TWO_REG_NAMES" "''CFROUND'' \<notin> set TWO_REG_NAMES"
  "''INEG_R'' \<notin> set TWO_REG_NAMES" "''NOP'' \<notin> set TWO_REG_NAMES"
  "''CBRANCH'' \<notin> set REG_MEM_NAMES" "''CFROUND'' \<notin> set REG_MEM_NAMES"
  "''INEG_R'' \<notin> set REG_MEM_NAMES" "''NOP'' \<notin> set REG_MEM_NAMES"
  by (simp_all add: TWO_REG_NAMES_def REG_MEM_NAMES_def)

lemma two_reg_names_not_reg_mem: "name \<in> set TWO_REG_NAMES \<Longrightarrow> name \<notin> set REG_MEM_NAMES"
  by (auto simp: TWO_REG_NAMES_def REG_MEM_NAMES_def)

lemma two_reg_names_special:
  "name \<in> set TWO_REG_NAMES \<Longrightarrow> name \<noteq> ''ISUB_R'' \<and> name \<noteq> ''ISTORE''"
  by (auto simp: TWO_REG_NAMES_def)

lemma reg_mem_names_special:
  "name \<in> set REG_MEM_NAMES \<Longrightarrow> name \<noteq> ''ISUB_R'' \<and> name \<noteq> ''ISTORE''"
  by (auto simp: REG_MEM_NAMES_def)

lemma takeWhile_word:
  "CHR '' '' \<notin> set name \<Longrightarrow> takeWhile (\<lambda>c. c \<noteq> CHR '' '') (name @ CHR '' '' # rest) = name"
  by (induction name) auto

lemma takeWhile_all: "CHR '' '' \<notin> set name \<Longrightarrow> takeWhile (\<lambda>c. c \<noteq> CHR '' '') name = name"
  by (induction name) auto

lemma render_match_first_word:
  "CHR '' '' \<notin> set name \<Longrightarrow> takeWhile (\<lambda>c. c \<noteq> CHR '' '') (render_match cfg i d s name) = name"
  by (simp add: render_match_def takeWhile_word takeWhile_all)

section \<open>Properties of the disassembler\<close>

text \<open>
  C6: rendering panics (remainder by zero) exactly when \<open>REGISTER_COUNT\<close> is a multiple
  of 256, so that \<open>REGISTER_COUNT as u8\<close> is 0; for every other register count, every
  instruction, whatever its bytes, renders to some text.
\<close>

theorem fmt_panics_iff:
  "(instruction_fmt cfg i = Inl RemainderByZero \<longleftrightarrow> REGISTER_COUNT cfg mod 256 = 0) \<and>
   (REGISTER_COUNT cfg mod 256 \<noteq> 0 \<longrightarrow> (\<exists>s. instruction_fmt cfg i = Inr s))"
  by (simp add: instruction_fmt_def rem_u8_def register_count_zero_iff)

theorem fmt_panics_iff_witness:
  "(instruction_fmt randomx_config instruction_default = Inl RemainderByZero \<longleftrightarrow>
      REGISTER_COUNT randomx_config mod 256 = 0) \<and>
   REGISTER_COUNT randomx_config mod 256 \<noteq> 0 \<and>
   (\<exists>s. instruction_fmt randomx_config instruction_default = Inr s)"
proof -
  have "REGISTER_COUNT randomx_config mod 256 \<noteq> 0" by (simp add: randomx_config_def)
  then show ?thesis
    using fmt_panics_iff [of randomx_config instruction_default] by simp
qed

text \<open>
  C7: the subtract special case: an \<open>ISUB_R\<close> instruction, with a register count in
  1..255, renders as \<open>ISUB_R r<dst>, r<src>\<close> when the two reduced register indices
  differ, and as \<open>ISUB_R r<dst>, <imm32>\<close> (the immediate unsigned) when they are equal.
\<close>

theorem fmt_isub_r:
  assumes "INSTR_NAMES ! unat (opcode i) = ''ISUB_R''"
    and "0 < REGISTER_COUNT cfg" and "REGISTER_COUNT cfg < 256"
  shows "instruction_fmt cfg i =
    Inr (''ISUB_R r'' @ dec_nat (unat (dst i) mod REGISTER_COUNT cfg) @
      (if unat (dst i) mod REGISTER_COUNT cfg = unat (src i) mod REGISTER_COUNT cfg
       then '', '' @ dec_nat (unat (imm32 i))
       else '', r'' @ dec_nat (unat (src i) mod REGISTER_COUNT cfg)))"
  using assms
  by (simp add: instruction_fmt_Inr render_match_def display_reduced reduced_eq_iff
      display_u32_def get_imm32_def)

theorem fmt_isub_r_witness:
  "INSTR_NAMES ! unat (opcode (instruction_new 23 9 1 0 7)) = ''ISUB_R'' \<and>
   0 < REGISTER_COUNT randomx_config \<and> REGISTER_COUNT randomx_config < 256 \<and>
   instruction_fmt randomx_config (instruction_new 23 9 1 0 7) = Inr ''ISUB_R r1, 7''"
proof -
  have n: "INSTR_NAMES ! unat (opcode (instruction_new 23 9 1 0 7)) = ''ISUB_R''"
    using INSTR_NAMES_nth [of 2 23] by (simp add: instruction_new_def NAMES_FREQS_def)
  have c: "0 < REGISTER_COUNT randomx_config" "REGISTER_COUNT randomx_config < 256"
    by (simp_all add: randomx_config_def)
  show ?thesis
    using fmt_isub_r [OF n c] n c
    by (simp add: instruction_new_def randomx_config_def dec_nat.simps digit_char_def)
qed

text \<open>
  C8: the store template: an \<open>ISTORE\<close> instruction renders as
  \<open>ISTORE <space>[r<dst> <imm32 as i32>], r<src>\<close>, where the space is the label of the
  abstract store space of the modifier and the immediate is printed signed.
\<close>

theorem fmt_istore:
  assumes "INSTR_NAMES ! unat (opcode i) = ''ISTORE''"
    and "0 < REGISTER_COUNT cfg" and "REGISTER_COUNT cfg < 256"
  shows "instruction_fmt cfg i =
    Inr (''ISTORE '' @ space_label (store_space (sint (STORE_L3_CONDITION cfg)) (unat (mod_byte i))) @
      ''[r'' @ dec_nat (unat (dst i) mod REGISTER_COUNT cfg) @ '' '' @ display_i32 (imm32 i) @
      ''], r'' @ dec_nat (unat (src i) mod REGISTER_COUNT cfg))"
  using assms
  by (simp add: instruction_fmt_Inr render_match_def display_reduced get_address_reg_dst_space
      get_imm32_def)

theorem fmt_istore_witness:
  "INSTR_NAMES ! unat (opcode (instruction_new 250 3 12 0xF2 5)) = ''ISTORE'' \<and>
   0 < REGISTER_COUNT randomx_config \<and> REGISTER_COUNT randomx_config < 256 \<and>
   instruction_fmt randomx_config (instruction_new 250 3 12 0xF2 5) = Inr ''ISTORE L3[r3 5], r4''"
proof -
  have n: "INSTR_NAMES ! unat (opcode (instruction_new 250 3 12 0xF2 5)) = ''ISTORE''"
    using INSTR_NAMES_nth [of 28 250] by (simp add: instruction_new_def NAMES_FREQS_def)
  have c: "0 < REGISTER_COUNT randomx_config" "REGISTER_COUNT randomx_config < 256"
    by (simp_all add: randomx_config_def)
  show ?thesis
    using fmt_istore [OF n c] n c
    by (simp add: instruction_new_def randomx_config_def dec_nat.simps digit_char_def
        store_space_def L3_LABEL_def display_i32_def)
qed

lemma render_two_reg:
  "name \<in> set TWO_REG_NAMES \<Longrightarrow>
     render_match cfg i d s name = name @ '' r'' @ display_u8 d @ '', r'' @ display_u8 s"
  using two_reg_names_special [of name] by (simp add: render_match_def)

lemma render_reg_mem:
  "name \<in> set REG_MEM_NAMES \<Longrightarrow>
     render_match cfg i d s name = name @ '' r'' @ display_u8 d @ '', [r'' @ display_u8 s @ '']''"
  using reg_mem_names_special [of name] two_reg_names_not_reg_mem [of name]
  by (auto simp: render_match_def)

lemma fmt_randomx:
  "instruction_fmt randomx_config i =
     Inr (render_match randomx_config i (dst i mod 8) (src i mod 8) (INSTR_NAMES ! unat (opcode i)))"
  by (simp add: instruction_fmt_Inr randomx_config_def)

lemma fmt_Inr_count:
  assumes "instruction_fmt cfg i = Inr s"
  shows "REGISTER_COUNT cfg mod 256 \<noteq> 0"
proof
  assume "REGISTER_COUNT cfg mod 256 = 0"
  then have "instruction_fmt cfg i = Inl RemainderByZero"
    by (simp add: instruction_fmt_def rem_u8_def register_count_zero_iff)
  with assms show False by simp
qed

lemma fmt_Inr_render:
  "instruction_fmt cfg i = Inr s \<Longrightarrow>
     s = render_match cfg i (dst i mod of_nat (REGISTER_COUNT cfg))
       (src i mod of_nat (REGISTER_COUNT cfg)) (INSTR_NAMES ! unat (opcode i))"
  using instruction_fmt_Inr [OF fmt_Inr_count] by fastforce

lemma mnemonic_no_space: "CHR '' '' \<notin> set (INSTR_NAMES ! unat (op::u8))"
proof -
  obtain f where "(INSTR_NAMES ! unat op, f) \<in> set NAMES_FREQS"
    using INSTR_NAMES_mem [OF unat_u8_less [of op]] by blast
  then show ?thesis using NAMES_FREQS_names by blast
qed

text \<open>
  C18: the first word of every rendered line (the text before the first space, or the
  whole line) is the instruction's mnemonic \<open>INSTR_NAMES[opcode]\<close>, in every arm of the
  match.
\<close>

theorem fmt_first_word:
  assumes "instruction_fmt cfg i = Inr s"
  shows "takeWhile (\<lambda>c. c \<noteq> CHR '' '') s = INSTR_NAMES ! unat (opcode i)"
  using fmt_Inr_render [OF assms] by (simp add: render_match_first_word mnemonic_no_space)

theorem fmt_first_word_witness:
  "instruction_fmt randomx_config instruction_default = Inr ''IADD_RS r0, r0'' \<and>
   takeWhile (\<lambda>c. c \<noteq> CHR '' '') ''IADD_RS r0, r0'' = INSTR_NAMES ! unat (opcode instruction_default)"
proof -
  have n: "INSTR_NAMES ! 0 = ''IADD_RS''"
    using INSTR_NAMES_nth [of 0 0] by (simp add: NAMES_FREQS_def)
  have f: "instruction_fmt randomx_config instruction_default = Inr ''IADD_RS r0, r0''"
    using n by (simp add: fmt_randomx instruction_default_def render_two_reg TWO_REG_NAMES_def
        display_u8_def dec_nat.simps digit_char_def)
  show ?thesis using fmt_first_word [OF f] f by simp
qed

text \<open>
  C19: every mnemonic of the two-register arm renders as \<open><MNEMONIC> r<dst>, r<src>\<close>
  with both register fields reduced modulo the register count.
\<close>

theorem fmt_two_reg:
  assumes "INSTR_NAMES ! unat (opcode i) \<in> set TWO_REG_NAMES"
    and "0 < REGISTER_COUNT cfg" and "REGISTER_COUNT cfg < 256"
  shows "instruction_fmt cfg i = Inr (INSTR_NAMES ! unat (opcode i) @
    '' r'' @ dec_nat (unat (dst i) mod REGISTER_COUNT cfg) @
    '', r'' @ dec_nat (unat (src i) mod REGISTER_COUNT cfg))"
  using assms by (simp add: instruction_fmt_Inr render_two_reg display_reduced)

theorem fmt_two_reg_witness:
  "INSTR_NAMES ! unat (opcode (instruction_new 100 9 13 0 0)) \<in> set TWO_REG_NAMES \<and>
   0 < REGISTER_COUNT randomx_config \<and> REGISTER_COUNT randomx_config < 256 \<and>
   instruction_fmt randomx_config (instruction_new 100 9 13 0 0) = Inr ''IXOR_R r1, r5''"
proof -
  have n: "INSTR_NAMES ! unat (opcode (instruction_new 100 9 13 0 0)) = ''IXOR_R''"
    using INSTR_NAMES_nth [of 12 100] by (simp add: instruction_new_def NAMES_FREQS_def)
  then have t: "INSTR_NAMES ! unat (opcode (instruction_new 100 9 13 0 0)) \<in> set TWO_REG_NAMES"
    by (simp add: TWO_REG_NAMES_def)
  have c: "0 < REGISTER_COUNT randomx_config" "REGISTER_COUNT randomx_config < 256"
    by (simp_all add: randomx_config_def)
  show ?thesis
    using fmt_two_reg [OF t c] t c n
    by (simp add: instruction_new_def randomx_config_def dec_nat.simps digit_char_def)
qed

text \<open>
  C20: every mnemonic of the register-memory arm renders as
  \<open><MNEMONIC> r<dst>, [r<src>]\<close> with both register fields reduced modulo the count.
\<close>

theorem fmt_reg_mem:
  assumes "INSTR_NAMES ! unat (opcode i) \<in> set REG_MEM_NAMES"
    and "0 < REGISTER_COUNT cfg" and "REGISTER_COUNT cfg < 256"
  shows "instruction_fmt cfg i = Inr (INSTR_NAMES ! unat (opcode i) @
    '' r'' @ dec_nat (unat (dst i) mod REGISTER_COUNT cfg) @
    '', [r'' @ dec_nat (unat (src i) mod REGISTER_COUNT cfg) @ '']'')"
  using assms by (simp add: instruction_fmt_Inr render_reg_mem display_reduced)

theorem fmt_reg_mem_witness:
  "INSTR_NAMES ! unat (opcode (instruction_new 16 9 13 0 0)) \<in> set REG_MEM_NAMES \<and>
   0 < REGISTER_COUNT randomx_config \<and> REGISTER_COUNT randomx_config < 256 \<and>
   instruction_fmt randomx_config (instruction_new 16 9 13 0 0) = Inr ''IADD_M r1, [r5]''"
proof -
  have n: "INSTR_NAMES ! unat (opcode (instruction_new 16 9 13 0 0)) = ''IADD_M''"
    using INSTR_NAMES_nth [of 1 16] by (simp add: instruction_new_def NAMES_FREQS_def)
  then have t: "INSTR_NAMES ! unat (opcode (instruction_new 16 9 13 0 0)) \<in> set REG_MEM_NAMES"
    by (simp add: REG_MEM_NAMES_def)
  have c: "0 < REGISTER_COUNT randomx_config" "REGISTER_COUNT randomx_config < 256"
    by (simp_all add: randomx_config_def)
  show ?thesis
    using fmt_reg_mem [OF t c] t c n
    by (simp add: instruction_new_def randomx_config_def dec_nat.simps digit_char_def)
qed

text \<open>
  A conditional branch renders as \<open>CBRANCH <imm32>\<close>: the raw immediate, unsigned,
  and no register operand, for any register count that does not panic.
\<close>

theorem fmt_cbranch:
  assumes "INSTR_NAMES ! unat (opcode i) = ''CBRANCH''" and "REGISTER_COUNT cfg mod 256 \<noteq> 0"
  shows "instruction_fmt cfg i = Inr (''CBRANCH '' @ dec_nat (unat (imm32 i)))"
  using assms by (simp add: instruction_fmt_Inr render_match_def display_u32_def)

theorem fmt_cbranch_witness:
  "INSTR_NAMES ! unat (opcode (instruction_new 214 1 2 3 4294967292)) = ''CBRANCH'' \<and>
   REGISTER_COUNT randomx_config mod 256 \<noteq> 0 \<and>
   instruction_fmt randomx_config (instruction_new 214 1 2 3 4294967292) = Inr ''CBRANCH 4294967292''"
proof -
  have n: "INSTR_NAMES ! unat (opcode (instruction_new 214 1 2 3 4294967292)) = ''CBRANCH''"
    using INSTR_NAMES_nth [of 26 214] by (simp add: instruction_new_def NAMES_FREQS_def)
  have c: "REGISTER_COUNT randomx_config mod 256 \<noteq> 0"
    by (simp add: randomx_config_def)
  show ?thesis
    using fmt_cbranch [OF n c] n c by (simp add: instruction_new_def dec_nat.simps digit_char_def)
qed

text \<open>
  A rounding-mode change renders as \<open>CFROUND <dst>\<close> with the raw \<open>dst\<close> byte, not
  reduced modulo the register count.
\<close>

theorem fmt_cfround:
  assumes "INSTR_NAMES ! unat (opcode i) = ''CFROUND''" and "REGISTER_COUNT cfg mod 256 \<noteq> 0"
  shows "instruction_fmt cfg i = Inr (''CFROUND '' @ dec_nat (unat (dst i)))"
  using assms by (simp add: instruction_fmt_Inr render_match_def display_u8_def)

theorem fmt_cfround_witness:
  "INSTR_NAMES ! unat (opcode (instruction_new 239 200 2 3 4)) = ''CFROUND'' \<and>
   REGISTER_COUNT randomx_config mod 256 \<noteq> 0 \<and>
   instruction_fmt randomx_config (instruction_new 239 200 2 3 4) = Inr ''CFROUND 200''"
proof -
  have n: "INSTR_NAMES ! unat (opcode (instruction_new 239 200 2 3 4)) = ''CFROUND''"
    using INSTR_NAMES_nth [of 27 239] by (simp add: instruction_new_def NAMES_FREQS_def)
  have c: "REGISTER_COUNT randomx_config mod 256 \<noteq> 0"
    by (simp add: randomx_config_def)
  show ?thesis
    using fmt_cfround [OF n c] n c by (simp add: instruction_new_def dec_nat.simps digit_char_def)
qed

lemma classify_two_reg: "name \<in> set TWO_REG_NAMES \<Longrightarrow> classify name = Two_Reg"
  using two_reg_names_special [of name] by (simp add: classify_def)

lemma classify_reg_mem: "name \<in> set REG_MEM_NAMES \<Longrightarrow> classify name = Reg_Mem"
  using reg_mem_names_special [of name] two_reg_names_not_reg_mem [of name]
  by (auto simp: classify_def)

lemma render_match_spec_line:
  assumes "0 < n" and "n < 256"
  shows "render_match cfg i (dst i mod of_nat n) (src i mod of_nat n) name =
    spec_line n (sint (STORE_L3_CONDITION cfg)) i name (classify name)"
proof -
  consider "name = ''ISUB_R''" | "name = ''ISTORE''" | "name \<in> set TWO_REG_NAMES"
    | "name \<in> set REG_MEM_NAMES"
    | "name \<notin> set TWO_REG_NAMES" "name \<notin> set REG_MEM_NAMES" "name \<noteq> ''ISUB_R''" "name \<noteq> ''ISTORE''"
    by blast
  then show ?thesis
  proof cases
    case 1
    with assms show ?thesis
      by (simp add: render_match_def classify_def display_reduced reduced_eq_iff display_u32_def
          get_imm32_def)
  next
    case 2
    with assms show ?thesis
      by (simp add: render_match_def classify_def display_reduced get_address_reg_dst_space
          get_imm32_def)
  next
    case 3
    with assms show ?thesis by (simp add: render_two_reg classify_two_reg display_reduced)
  next
    case 4
    with assms show ?thesis by (simp add: render_reg_mem classify_reg_mem display_reduced)
  next
    case 5
    then show ?thesis
      by (simp add: render_match_def classify_def display_u32_def display_u8_def)
  qed
qed

text \<open>
  C25: the disassembler refines the abstract specification: for every register count
  in 1..255 and every instruction, \<open>fmt\<close> produces the template of the family of the
  instruction's mnemonic, with the register fields reduced modulo the count.
\<close>

theorem fmt_refines_spec:
  assumes "0 < REGISTER_COUNT cfg" and "REGISTER_COUNT cfg < 256"
  shows "instruction_fmt cfg i =
    Inr (spec_line (REGISTER_COUNT cfg) (sint (STORE_L3_CONDITION cfg)) i
      (INSTR_NAMES ! unat (opcode i)) (classify (INSTR_NAMES ! unat (opcode i))))"
  using assms by (simp add: instruction_fmt_Inr render_match_spec_line)

theorem fmt_refines_spec_witness:
  "0 < REGISTER_COUNT randomx_config \<and> REGISTER_COUNT randomx_config < 256 \<and>
   instruction_fmt randomx_config (instruction_new 40 3 4 0 0) =
     Inr (spec_line 8 14 (instruction_new 40 3 4 0 0) ''ISUB_M'' Reg_Mem)"
proof -
  have c: "0 < REGISTER_COUNT randomx_config" "REGISTER_COUNT randomx_config < 256"
    by (simp_all add: randomx_config_def)
  have n: "INSTR_NAMES ! unat (opcode (instruction_new 40 3 4 0 0)) = ''ISUB_M''"
    using INSTR_NAMES_nth [of 3 40] by (simp add: instruction_new_def NAMES_FREQS_def)
  show ?thesis
    using fmt_refines_spec [OF c, of "instruction_new 40 3 4 0 0"] c n
    by (simp add: classify_def TWO_REG_NAMES_def REG_MEM_NAMES_def randomx_config_def)
qed

lemma table_names_rendered:
  "classify (INSTR_NAMES ! unat (op::u8)) \<noteq> Bare \<and> INSTR_NAMES ! unat op \<noteq> ''NOP''"
proof -
  obtain f where "(INSTR_NAMES ! unat op, f) \<in> set NAMES_FREQS" "f \<noteq> 0"
    using INSTR_NAMES_mem [OF unat_u8_less [of op]] by blast
  then show ?thesis
    by (auto simp: NAMES_FREQS_def classify_def TWO_REG_NAMES_def REG_MEM_NAMES_def)
qed

lemma render_match_not_bare:
  "classify name \<noteq> Bare \<Longrightarrow> name \<noteq> ''NOP'' \<Longrightarrow> render_match cfg i d s name \<noteq> name"
  by (auto simp: render_match_def classify_def split: if_splits)

text \<open>
  C26: no opcode of the shipped table reaches the default arm of the match: the line
  of every instruction carries its operands and is never the bare mnemonic that the
  default arm \<open>write!(f, "{}", INSTR_NAMES[..])\<close> prints.
\<close>

theorem fmt_never_default_arm:
  assumes "instruction_fmt cfg i = Inr l"
  shows "l \<noteq> INSTR_NAMES ! unat (opcode i)"
proof -
  have "classify (INSTR_NAMES ! unat (opcode i)) \<noteq> Bare" "INSTR_NAMES ! unat (opcode i) \<noteq> ''NOP''"
    using table_names_rendered [of "opcode i"] by simp_all
  then show ?thesis using fmt_Inr_render [OF assms] render_match_not_bare by simp
qed

theorem fmt_never_default_arm_witness:
  "instruction_fmt randomx_config (instruction_new 220 0 0 0 5) = Inr ''CBRANCH 5'' \<and>
   ''CBRANCH 5'' \<noteq> INSTR_NAMES ! unat (opcode (instruction_new 220 0 0 0 5))"
proof -
  have n: "INSTR_NAMES ! 220 = ''CBRANCH''"
    using INSTR_NAMES_nth [of 26 220] by (simp add: NAMES_FREQS_def)
  have f: "instruction_fmt randomx_config (instruction_new 220 0 0 0 5) = Inr ''CBRANCH 5''"
    by (simp only: fmt_randomx)
      (simp add: instruction_new_def n render_match_def TWO_REG_NAMES_def REG_MEM_NAMES_def
        display_u32_def dec_nat.simps digit_char_def)
  show ?thesis using fmt_never_default_arm [OF f] f by simp
qed

end
