(* ===== verification/Disassembler_Readback.thy ===== *)
theory Disassembler_Readback
  imports Disassembler "HOL-Library.Monad_Syntax"
begin

text \<open>
  What a disassembly line says, and that it can be read back.  \<open>line_view\<close> is the
  abstract content of the line of an instruction, as the specification describes it
  (section 5): the family of the mnemonic, the register indices reduced modulo
  \<open>REGISTER_COUNT\<close>, the store address space, and the immediate as the raw 32-bit pattern
  \<open>imm32\<close>; whether the pattern is shown signed (a store offset) or unsigned (a branch
  target, the \<open>ISUB_R\<close> fallback) is a matter of printing only.  \<open>print_view\<close> prints a
  view with one template per constructor; \<open>parse_line\<close> is an executable reader of lines.

  The lemmas show that \<open>Display for Instruction\<close> is \<open>print_view\<close> after \<open>line_view\<close>
  for every register count in 1..255, and that \<open>parse_line\<close> inverts \<open>print_view\<close> on
  well-formed views; hence a line determines the view of its instruction and two
  instructions print alike exactly when their views agree.
\<close>

section \<open>Views of a line\<close>

datatype line_view =
    V_Two_Reg string nat nat
  | V_Reg_Mem string nat nat
  | V_Sub_Imm nat u32
  | V_Store address_space nat u32 nat
  | V_Branch u32
  | V_Round nat
  | V_Negate nat
  | V_Nop
  | V_Bare string

fun print_view :: "line_view \<Rightarrow> string" where
  "print_view (V_Two_Reg name d s) = name @ '' r'' @ dec_nat d @ '', r'' @ dec_nat s"
| "print_view (V_Reg_Mem name d s) = name @ '' r'' @ dec_nat d @ '', [r'' @ dec_nat s @ '']''"
| "print_view (V_Sub_Imm d w) = ''ISUB_R r'' @ dec_nat d @ '', '' @ display_u32 w"
| "print_view (V_Store sp d w s) =
     ''ISTORE '' @ space_label sp @ ''[r'' @ dec_nat d @ '' '' @ display_i32 w @ ''], r'' @ dec_nat s"
| "print_view (V_Branch w) = ''CBRANCH '' @ display_u32 w"
| "print_view (V_Round r) = ''CFROUND '' @ dec_nat r"
| "print_view (V_Negate r) = ''INEG_R r'' @ dec_nat r"
| "print_view V_Nop = ''NOP''"
| "print_view (V_Bare name) = name"

text \<open>A view names its mnemonic's own family; a bare mnemonic is a single word.\<close>

fun wf_view :: "line_view \<Rightarrow> bool" where
  "wf_view (V_Two_Reg name d s) \<longleftrightarrow> classify name = Two_Reg \<or> name = ''ISUB_R''"
| "wf_view (V_Reg_Mem name d s) \<longleftrightarrow> classify name = Reg_Mem"
| "wf_view (V_Bare name) \<longleftrightarrow> classify name = Bare \<and> CHR '' '' \<notin> set name"
| "wf_view _ \<longleftrightarrow> True"

text \<open>The view of an instruction under a configuration, family by family.\<close>

definition line_view :: "vm_config \<Rightarrow> instruction \<Rightarrow> line_view" where
  "line_view cfg i =
     (let n = REGISTER_COUNT cfg; name = INSTR_NAMES ! unat (opcode i);
          d = unat (dst i) mod n; s = unat (src i) mod n in
      case classify name of
        Sub_Special \<Rightarrow> if d = s then V_Sub_Imm d (imm32 i) else V_Two_Reg name d s
      | Store \<Rightarrow> V_Store (store_space (sint (STORE_L3_CONDITION cfg)) (unat (mod_byte i))) d (imm32 i) s
      | Two_Reg \<Rightarrow> V_Two_Reg name d s
      | Reg_Mem \<Rightarrow> V_Reg_Mem name d s
      | Cond_Branch \<Rightarrow> V_Branch (imm32 i)
      | Round_Ctl \<Rightarrow> V_Round (unat (dst i))
      | Negate \<Rightarrow> V_Negate (unat (dst i))
      | No_Op \<Rightarrow> V_Nop
      | Bare \<Rightarrow> V_Bare name)"

section \<open>Reading a line\<close>

definition split_at :: "char \<Rightarrow> string \<Rightarrow> string \<times> string" where
  "split_at c s = (takeWhile (\<lambda>x. x \<noteq> c) s, drop 1 (dropWhile (\<lambda>x. x \<noteq> c) s))"

definition strip :: "string \<Rightarrow> string \<Rightarrow> string option" where
  "strip p s = (if take (length p) s = p then Some (drop (length p) s) else None)"

definition space_of_label :: "string \<Rightarrow> address_space option" where
  "space_of_label l =
     (if l = L1_LABEL then Some Space_L1 else if l = L2_LABEL then Some Space_L2
      else if l = L3_LABEL then Some Space_L3 else None)"

definition parse_line :: "string \<Rightarrow> line_view option" where
  "parse_line l = (case split_at CHR '' '' l of (name, rest) \<Rightarrow>
     (case classify name of
        Sub_Special \<Rightarrow> do {
          r \<leftarrow> strip ''r'' rest;
          (case split_at CHR '','' r of (d, r2) \<Rightarrow>
             (case strip '' r'' r2 of
                Some s \<Rightarrow> Some (V_Two_Reg name (dec_value d) (dec_value s))
              | None \<Rightarrow> do {
                  w \<leftarrow> strip '' '' r2;
                  Some (V_Sub_Imm (dec_value d) (of_nat (dec_value w))) })) }
      | Store \<Rightarrow> do {
          sp \<leftarrow> space_of_label (take 2 rest);
          r \<leftarrow> strip ''[r'' (drop 2 rest);
          (case split_at CHR '' '' r of (d, r2) \<Rightarrow>
             (case split_at CHR '']'' r2 of (w, r3) \<Rightarrow> do {
                s \<leftarrow> strip '', r'' r3;
                Some (V_Store sp (dec_value d) (word_of_int (parse_i32 w)) (dec_value s)) })) }
      | Two_Reg \<Rightarrow> do {
          r \<leftarrow> strip ''r'' rest;
          (case split_at CHR '','' r of (d, r2) \<Rightarrow> do {
             s \<leftarrow> strip '' r'' r2;
             Some (V_Two_Reg name (dec_value d) (dec_value s)) }) }
      | Reg_Mem \<Rightarrow> do {
          r \<leftarrow> strip ''r'' rest;
          (case split_at CHR '','' r of (d, r2) \<Rightarrow> do {
             s \<leftarrow> strip '' [r'' r2;
             Some (V_Reg_Mem name (dec_value d) (dec_value (butlast s))) }) }
      | Cond_Branch \<Rightarrow> Some (V_Branch (of_nat (dec_value rest)))
      | Round_Ctl \<Rightarrow> Some (V_Round (dec_value rest))
      | Negate \<Rightarrow> do { r \<leftarrow> strip ''r'' rest; Some (V_Negate (dec_value r)) }
      | No_Op \<Rightarrow> Some V_Nop
      | Bare \<Rightarrow> Some (V_Bare name)))"

section \<open>Lemmas\<close>

lemma split_at_simps [simp]:
  "split_at c [] = ([], [])"
  "split_at c (x # xs) = (if x = c then ([], xs) else (case split_at c xs of (u, r) \<Rightarrow> (x # u, r)))"
  by (simp_all add: split_at_def split: prod.split)

lemma split_at_append [simp]: "c \<notin> set u \<Longrightarrow> split_at c (u @ c # r) = (u, r)"
  by (induction u) auto

lemma strip_append [simp]: "strip p (p @ r) = Some r"
  by (simp add: strip_def)

lemma strip_Cons [simp]: "strip (a # p) (b # s) = (if a = b then strip p s else None)"
  by (simp add: strip_def)

lemma strip_Nil [simp]: "strip [] s = Some s"
  by (simp add: strip_def)

lemma not_digit_notin_dec_nat: "\<not> is_digit c \<Longrightarrow> c \<notin> set (dec_nat n)"
  using dec_nat_digits [of n] by blast

lemma separators_notin_dec_nat [simp]:
  "CHR '','' \<notin> set (dec_nat n)" "CHR '' '' \<notin> set (dec_nat n)" "CHR '']'' \<notin> set (dec_nat n)"
  by (simp_all add: not_digit_notin_dec_nat is_digit_def)

lemma bracket_notin_display_i32 [simp]: "CHR '']'' \<notin> set (display_i32 w)"
  by (simp add: display_i32_def)

lemma strip_reg_digits_app [simp]: "strip ''r'' (dec_nat n @ r) = None"
proof -
  obtain c rest where cr: "dec_nat n = c # rest" by (cases "dec_nat n") auto
  then have "is_digit c" by (rule dec_nat_hd_digit)
  then have "c \<noteq> CHR ''r''" by (auto simp: is_digit_def)
  with cr show ?thesis by simp
qed

lemma strip_reg_digits [simp]: "strip ''r'' (dec_nat n) = None"
  using strip_reg_digits_app [of n "[]"] by simp

lemma length_space_label [simp]: "length (space_label sp) = 2"
  by (cases sp) (simp_all add: L1_LABEL_def L2_LABEL_def L3_LABEL_def)

lemma space_of_label_label [simp]: "space_of_label (space_label sp) = Some sp"
  by (cases sp) (simp_all add: space_of_label_def L1_LABEL_def L2_LABEL_def L3_LABEL_def)

lemma take_drop_space_label [simp]:
  "take 2 (space_label sp @ r) = space_label sp" "drop 2 (space_label sp @ r) = r"
  using length_space_label [of sp] by simp_all

lemma classify_Two_Reg_names: "classify name = Two_Reg \<Longrightarrow> name \<in> set TWO_REG_NAMES"
  by (simp add: classify_def split: if_splits)

lemma classify_Reg_Mem_names: "classify name = Reg_Mem \<Longrightarrow> name \<in> set REG_MEM_NAMES"
  by (simp add: classify_def split: if_splits)

lemma table_names_no_space:
  "name \<in> set TWO_REG_NAMES \<Longrightarrow> CHR '' '' \<notin> set name"
  "name \<in> set REG_MEM_NAMES \<Longrightarrow> CHR '' '' \<notin> set name"
  by (auto simp: TWO_REG_NAMES_def REG_MEM_NAMES_def)

lemma classify_ISUB_R [simp]: "classify ''ISUB_R'' = Sub_Special"
  by (simp add: classify_def)

lemma parse_print_view: "wf_view v \<Longrightarrow> parse_line (print_view v) = Some v"
proof (cases v)
  case (V_Two_Reg name d s)
  moreover assume "wf_view v"
  ultimately consider "classify name = Two_Reg" "name \<in> set TWO_REG_NAMES" | "name = ''ISUB_R''"
    using classify_Two_Reg_names by auto
  then show ?thesis
  proof cases
    case 1
    with V_Two_Reg show ?thesis
      by (simp add: parse_line_def table_names_no_space)
  next
    case 2
    with V_Two_Reg show ?thesis by (simp add: parse_line_def)
  qed
next
  case (V_Reg_Mem name d s)
  moreover assume "wf_view v"
  ultimately have "classify name = Reg_Mem" "CHR '' '' \<notin> set name"
    using classify_Reg_Mem_names table_names_no_space by auto
  with V_Reg_Mem show ?thesis by (simp add: parse_line_def)
next
  case (V_Bare name)
  moreover assume "wf_view v"
  ultimately show ?thesis
    by (simp add: parse_line_def split_at_def takeWhile_all dropWhile_eq_Nil_conv)
qed (simp_all add: parse_line_def classify_def TWO_REG_NAMES_def REG_MEM_NAMES_def display_u32_def)

lemma classify_eq_names:
  "classify name = Sub_Special \<Longrightarrow> name = ''ISUB_R''"
  "classify name = Store \<Longrightarrow> name = ''ISTORE''"
  "classify name = Cond_Branch \<Longrightarrow> name = ''CBRANCH''"
  "classify name = Round_Ctl \<Longrightarrow> name = ''CFROUND''"
  "classify name = Negate \<Longrightarrow> name = ''INEG_R''"
  "classify name = No_Op \<Longrightarrow> name = ''NOP''"
  by (simp_all add: classify_def split: if_splits)

lemma print_line_view:
  "print_view (line_view cfg i) =
     spec_line (REGISTER_COUNT cfg) (sint (STORE_L3_CONDITION cfg)) i
       (INSTR_NAMES ! unat (opcode i)) (classify (INSTR_NAMES ! unat (opcode i)))"
  by (cases "classify (INSTR_NAMES ! unat (opcode i))")
    (auto simp: line_view_def Let_def display_u32_def dest: classify_eq_names)

lemma fmt_line_view:
  "0 < REGISTER_COUNT cfg \<Longrightarrow> REGISTER_COUNT cfg < 256 \<Longrightarrow>
     instruction_fmt cfg i = Inr (print_view (line_view cfg i))"
  by (simp add: instruction_fmt_Inr render_match_spec_line print_line_view)

lemma wf_line_view: "wf_view (line_view cfg i)"
  using mnemonic_no_space [of "opcode i"]
  by (cases "classify (INSTR_NAMES ! unat (opcode i))")
    (auto simp: line_view_def Let_def dest: classify_eq_names)

lemma fmt_eq_view:
  "0 < REGISTER_COUNT cfg \<Longrightarrow> REGISTER_COUNT cfg < 256 \<Longrightarrow>
     instruction_fmt cfg i = instruction_fmt cfg j \<Longrightarrow> line_view cfg i = line_view cfg j"
  by (metis fmt_line_view parse_print_view wf_line_view sum.inject(2) option.inject)

text \<open>
  C13: every line the disassembler prints can be read back: for a register count in
  1..255, \<open>parse_line\<close> recovers from the line of an instruction its view, that is its
  family, its register indices modulo the count, its address space and its 32-bit
  immediate.
\<close>

theorem fmt_parse_roundtrip:
  assumes "0 < REGISTER_COUNT cfg" and "REGISTER_COUNT cfg < 256"
    and "instruction_fmt cfg i = Inr l"
  shows "parse_line l = Some (line_view cfg i)"
proof -
  have "l = print_view (line_view cfg i)" using assms(3) fmt_line_view [OF assms(1,2)] by simp
  then show ?thesis using parse_print_view [OF wf_line_view] by simp
qed

theorem fmt_parse_roundtrip_witness:
  "0 < REGISTER_COUNT randomx_config \<and> REGISTER_COUNT randomx_config < 256 \<and>
   instruction_fmt randomx_config (instruction_new 240 9 2 1 4294967292) =
     Inr ''ISTORE L1[r1 -4], r2'' \<and>
   parse_line ''ISTORE L1[r1 -4], r2'' = Some (V_Store Space_L1 1 4294967292 2)"
proof -
  have c: "0 < REGISTER_COUNT randomx_config" "REGISTER_COUNT randomx_config < 256"
    by (simp_all add: randomx_config_def)
  have n: "INSTR_NAMES ! 240 = ''ISTORE''"
    using INSTR_NAMES_nth [of 28 240] by (simp add: NAMES_FREQS_def)
  have f: "instruction_fmt randomx_config (instruction_new 240 9 2 1 4294967292) =
      Inr ''ISTORE L1[r1 -4], r2''"
    by (simp only: fmt_randomx)
      (simp add: instruction_new_def n render_match_def get_address_reg_dst_def accessor_defs
        randomx_config_def word_sless_alt L1_LABEL_def display_u8_def display_i32_def
        dec_nat.simps digit_char_def)
  have v: "line_view randomx_config (instruction_new 240 9 2 1 4294967292) =
      V_Store Space_L1 1 4294967292 2"
    by (simp add: line_view_def instruction_new_def n classify_def randomx_config_def
        store_space_def load_space_def)
  show ?thesis using fmt_parse_roundtrip [OF c f] c f v by simp
qed

text \<open>
  C21: the line of an instruction carries exactly its view: for a register count in
  1..255, two instructions print the same line if and only if they have the same view;
  in particular the store offset, printed signed, and the branch target, printed
  unsigned, both determine the raw 32-bit immediate.
\<close>

theorem fmt_eq_iff_view:
  assumes "0 < REGISTER_COUNT cfg" and "REGISTER_COUNT cfg < 256"
  shows "instruction_fmt cfg i = instruction_fmt cfg j \<longleftrightarrow> line_view cfg i = line_view cfg j"
proof
  assume "instruction_fmt cfg i = instruction_fmt cfg j"
  then show "line_view cfg i = line_view cfg j" by (rule fmt_eq_view [OF assms])
next
  assume "line_view cfg i = line_view cfg j"
  then show "instruction_fmt cfg i = instruction_fmt cfg j"
    by (simp add: fmt_line_view [OF assms])
qed

theorem fmt_eq_iff_view_witness:
  "0 < REGISTER_COUNT randomx_config \<and> REGISTER_COUNT randomx_config < 256 \<and>
   instruction_fmt randomx_config (instruction_new 220 3 0 0 77) \<noteq>
     instruction_fmt randomx_config (instruction_new 220 3 0 0 78)"
proof -
  have c: "0 < REGISTER_COUNT randomx_config" "REGISTER_COUNT randomx_config < 256"
    by (simp_all add: randomx_config_def)
  have n: "INSTR_NAMES ! 220 = ''CBRANCH''"
    using INSTR_NAMES_nth [of 26 220] by (simp add: NAMES_FREQS_def)
  have "line_view randomx_config (instruction_new 220 3 0 0 77) \<noteq>
      line_view randomx_config (instruction_new 220 3 0 0 78)"
    by (simp add: line_view_def instruction_new_def n classify_def TWO_REG_NAMES_def REG_MEM_NAMES_def)
  with fmt_eq_iff_view [OF c] c show ?thesis by blast
qed

end
