(* ===== verification/Build_Machine.thy ===== *)
theory Build_Machine
  imports Opcode_Table "HOL-Library.While_Combinator"
begin

text \<open>
  The nested \<open>while\<close> loops of \<open>build_instruction_array\<close>
  (\<open>src/ironlight/src/instruction.rs\<close>, lines 67 to 82) as a small-step machine, the
  way a \<open>const fn\<close> evaluator runs them: a state holds every local of the function
  (\<open>arr\<close>, \<open>idx\<close>, \<open>i\<close>, the entry \<open>(name, freq)\<close> read by the outer body, \<open>j\<close>)
  and a control location, the loop test that runs next.  One step runs one loop test
  and, when it holds, the body up to the next test.  The run of the function is the
  \<open>while_option\<close> of \<open>HOL-Library.While_Combinator\<close> over the steps, so that a loop that
  did not stop would be the value \<open>None\<close>; the reachable states are the inductive
  \<open>build_reach\<close>.

  The lemmas show that the run always stops within \<open>2 * len + weights + 1\<close> steps
  (a measure that every step decreases), that every reachable state satisfies the loop
  invariant \<open>build_inv\<close> (proved by rule induction), and from the invariant in the final
  state that the run returns the reference table \<open>flatten_weights\<close> padded with empty
  strings, or panics exactly when the weights sum past 256.
\<close>

section \<open>The machine\<close>

datatype build_pc = Outer_Test | Inner_Test | Returned | Panicked panic

record build_state =
  bs_pc :: build_pc
  bs_arr :: "string list"
  bs_idx :: usize
  bs_i :: usize
  bs_name :: string
  bs_freq :: u8
  bs_j :: u8

text \<open>
  \<open>let mut arr = [""; 256]; let mut idx = 0; let mut i = 0;\<close>; \<open>name\<close>, \<open>freq\<close> and
  \<open>j\<close> are not yet bound and hold placeholders that no step reads before writing them.
\<close>

definition build_init :: build_state where
  "build_init = \<lparr>bs_pc = Outer_Test, bs_arr = replicate 256 '''', bs_idx = 0, bs_i = 0,
     bs_name = '''', bs_freq = 0, bs_j = 0\<rparr>"

definition build_step :: "(string \<times> u8) list \<Rightarrow> build_state \<Rightarrow> build_state" where
  "build_step nf s = (case bs_pc s of
     Outer_Test \<Rightarrow>
       (if bs_i s < length nf then
          (case nf ! bs_i s of (name, freq) \<Rightarrow>
             s\<lparr>bs_name := name, bs_freq := freq, bs_j := 0, bs_pc := Inner_Test\<rparr>)
        else s\<lparr>bs_pc := Returned\<rparr>)
   | Inner_Test \<Rightarrow>
       (if bs_j s < bs_freq s then
          (case array_set (bs_arr s) (bs_idx s) (bs_name s) of
             Inl e \<Rightarrow> s\<lparr>bs_pc := Panicked e\<rparr>
           | Inr arr' \<Rightarrow> s\<lparr>bs_arr := arr', bs_idx := bs_idx s + 1, bs_j := bs_j s + 1\<rparr>)
        else s\<lparr>bs_i := bs_i s + 1, bs_pc := Outer_Test\<rparr>)
   | Returned \<Rightarrow> s
   | Panicked e \<Rightarrow> s)"

fun build_running :: "build_pc \<Rightarrow> bool" where
  "build_running Outer_Test = True"
| "build_running Inner_Test = True"
| "build_running Returned = False"
| "build_running (Panicked e) = False"

definition build_run :: "(string \<times> u8) list \<Rightarrow> build_state option" where
  "build_run nf = while_option (\<lambda>s. build_running (bs_pc s)) (build_step nf) build_init"

text \<open>\<open>arr\<close> is the value of the function; a panic stops constant evaluation.\<close>

definition build_outcome :: "build_state \<Rightarrow> string list res" where
  "build_outcome s = (case bs_pc s of Panicked e \<Rightarrow> Inl e | _ \<Rightarrow> Inr (bs_arr s))"

inductive build_reach :: "(string \<times> u8) list \<Rightarrow> build_state \<Rightarrow> bool" for nf where
  init: "build_reach nf build_init"
| step: "build_reach nf s \<Longrightarrow> build_running (bs_pc s) \<Longrightarrow> build_reach nf (build_step nf s)"

section \<open>Measure and invariant\<close>

text \<open>
  The work left: two steps per remaining entry (its outer test and its last inner test)
  and one per remaining write; the outer test that leaves the loop is the final one.
\<close>

definition rest_work :: "(string \<times> u8) list \<Rightarrow> nat \<Rightarrow> nat" where
  "rest_work nf k = sum_list (map (\<lambda>(n, f). unat f + 2) (drop k nf))"

definition build_measure :: "(string \<times> u8) list \<Rightarrow> build_state \<Rightarrow> nat" where
  "build_measure nf s = (case bs_pc s of
     Outer_Test \<Rightarrow> rest_work nf (bs_i s) + 1
   | Inner_Test \<Rightarrow> unat (bs_freq s) - unat (bs_j s) + 2 + rest_work nf (Suc (bs_i s))
   | _ \<Rightarrow> 0)"

text \<open>
  The array holds the prefix \<open>p\<close> written so far, then the initial empty strings, and
  \<open>idx\<close> points just past the prefix.
\<close>

definition laid_out :: "string list \<Rightarrow> build_state \<Rightarrow> bool" where
  "laid_out p s \<longleftrightarrow> bs_idx s = length p \<and> length p \<le> 256 \<and>
     bs_arr s = p @ replicate (256 - length p) ''''"

text \<open>
  Inside the inner loop the prefix is the tables of the entries before \<open>i\<close> and
  \<open>j\<close> copies of the current name; a panic leaves the state of the failed write.
\<close>

definition inner_inv :: "(string \<times> u8) list \<Rightarrow> build_state \<Rightarrow> bool" where
  "inner_inv nf s \<longleftrightarrow> bs_i s < length nf \<and> nf ! bs_i s = (bs_name s, bs_freq s) \<and>
     bs_j s \<le> bs_freq s \<and>
     laid_out (flatten_weights (take (bs_i s) nf) @ replicate (unat (bs_j s)) (bs_name s)) s"

definition build_inv :: "(string \<times> u8) list \<Rightarrow> build_state \<Rightarrow> bool" where
  "build_inv nf s = (case bs_pc s of
     Outer_Test \<Rightarrow> bs_i s \<le> length nf \<and> laid_out (flatten_weights (take (bs_i s) nf)) s
   | Inner_Test \<Rightarrow> inner_inv nf s
   | Returned \<Rightarrow> laid_out (flatten_weights nf) s
   | Panicked e \<Rightarrow> e = IndexOutOfBounds \<and> 256 < weight_total nf \<and> bs_idx s = 256 \<and>
       inner_inv nf s)"

section \<open>Lemmas\<close>

subsection \<open>Termination\<close>

lemma rest_work_Suc:
  "i < length nf \<Longrightarrow> nf ! i = (n, f) \<Longrightarrow> rest_work nf i = unat f + 2 + rest_work nf (Suc i)"
  by (simp add: rest_work_def Cons_nth_drop_Suc [symmetric])

lemma rest_work_0: "rest_work nf 0 = 2 * length nf + weight_total nf"
  by (induction nf) (auto simp: rest_work_def)

lemma build_step_final:
  "\<not> build_running (bs_pc s) \<Longrightarrow> build_step nf s = s"
  by (cases "bs_pc s") (simp_all add: build_step_def)

lemma funpow_build_step_final:
  "\<not> build_running (bs_pc s) \<Longrightarrow> (build_step nf ^^ m) s = s"
  by (induction m) (simp_all add: build_step_final)

lemma build_measure_pos: "build_running (bs_pc s) \<Longrightarrow> 0 < build_measure nf s"
  by (cases "bs_pc s") (simp_all add: build_measure_def)

lemma build_step_measure:
  assumes "build_running (bs_pc s)"
  shows "build_measure nf (build_step nf s) < build_measure nf s"
proof (cases "bs_pc s")
  case Outer_Test
  show ?thesis
  proof (cases "bs_i s < length nf")
    case True
    obtain n f where e: "nf ! bs_i s = (n, f)" by fastforce
    with True Outer_Test show ?thesis
      by (simp add: build_step_def build_measure_def rest_work_Suc)
  next
    case False
    with Outer_Test show ?thesis by (simp add: build_step_def build_measure_def)
  qed
next
  case Inner_Test
  show ?thesis
  proof (cases "bs_j s < bs_freq s")
    case True
    then have "unat (bs_j s + 1) = Suc (unat (bs_j s))" "unat (bs_j s) < unat (bs_freq s)"
      by (simp_all add: unat_Suc_less word_less_nat_alt)
    with True Inner_Test show ?thesis
      by (auto simp: build_step_def build_measure_def split: sum.split)
  next
    case False
    with Inner_Test show ?thesis by (simp add: build_step_def build_measure_def)
  qed
qed (use assms in simp_all)

lemma build_steps_final:
  "build_measure nf s \<le> n \<Longrightarrow> \<not> build_running (bs_pc ((build_step nf ^^ n) s))"
proof (induction n arbitrary: s)
  case 0
  then have "build_measure nf s = 0" by simp
  then show ?case using build_measure_pos [of s nf] by auto
next
  case (Suc n)
  show ?case
  proof (cases "build_running (bs_pc s)")
    case True
    then have "build_measure nf (build_step nf s) \<le> n"
      using build_step_measure [OF True, of nf] Suc.prems by simp
    then show ?thesis by (simp add: funpow_Suc_right Suc.IH del: funpow.simps)
  next
    case False
    then show ?thesis by (simp add: funpow_build_step_final [OF False] del: funpow.simps)
  qed
qed

lemma build_steps_final_unique:
  assumes "\<not> build_running (bs_pc ((build_step nf ^^ a) s))"
    and "\<not> build_running (bs_pc ((build_step nf ^^ b) s))"
  shows "(build_step nf ^^ a) s = (build_step nf ^^ b) s"
proof -
  have gen: "(build_step nf ^^ x) s = (build_step nf ^^ y) s"
    if "x \<le> y" and "\<not> build_running (bs_pc ((build_step nf ^^ x) s))" for x y
  proof -
    have "(build_step nf ^^ y) s = (build_step nf ^^ (y - x)) ((build_step nf ^^ x) s)"
      using that(1) funpow_add [of "y - x" x "build_step nf"] by simp
    then show ?thesis using that(2) by (simp add: funpow_build_step_final)
  qed
  show ?thesis
  proof (cases "a \<le> b")
    case True
    from gen [OF this assms(1)] show ?thesis .
  next
    case False
    then have "b \<le> a" by simp
    from gen [OF this assms(2)] show ?thesis by (rule sym)
  qed
qed

lemma build_measure_init: "build_measure nf build_init = 2 * length nf + weight_total nf + 1"
  by (simp add: build_measure_def build_init_def rest_work_0)

lemma build_run_Some: "\<exists>t. build_run nf = Some t"
  unfolding build_run_def
  by (rule measure_while_option_Some [where P = "\<lambda>_. True" and f = "build_measure nf"])
    (simp_all add: build_step_measure)

lemma build_run_steps:
  "build_run nf = Some ((build_step nf ^^ build_measure nf build_init) build_init)"
proof -
  obtain t where t: "build_run nf = Some t" using build_run_Some by blast
  then obtain k where k: "t = (build_step nf ^^ k) build_init" "\<not> build_running (bs_pc t)"
    unfolding build_run_def by (blast dest: while_option_stop2)
  have "(build_step nf ^^ build_measure nf build_init) build_init = (build_step nf ^^ k) build_init"
    using build_steps_final_unique [OF build_steps_final [OF order_refl]] k by blast
  with t k show ?thesis by simp
qed

lemma build_run_reach: "build_run nf = Some t \<Longrightarrow> build_reach nf t \<and> \<not> build_running (bs_pc t)"
  unfolding build_run_def
  using while_option_rule [where P = "build_reach nf"] while_option_stop build_reach.intros
  by metis

subsection \<open>The invariant\<close>

lemma weight_total_take_le: "weight_total (take k nf) \<le> weight_total nf"
  by (metis append_take_drop_id le_add1 weight_total_append)

lemma take_Suc_entry:
  "i < length nf \<Longrightarrow> nf ! i = (n, f) \<Longrightarrow> take (Suc i) nf = take i nf @ [(n, f)]"
  by (simp add: take_Suc_conv_app_nth)

lemma laid_out_write:
  assumes "laid_out p s" and "length p < 256"
  shows "array_set (bs_arr s) (bs_idx s) x = Inr ((p @ [x]) @ replicate (256 - length (p @ [x])) '''')"
proof -
  have "256 - length p = Suc (256 - length (p @ [x]))" using assms(2) by simp
  then show ?thesis using assms by (simp add: laid_out_def list_update_append)
qed

lemma laid_out_full:
  "laid_out p s \<Longrightarrow> \<not> length p < 256 \<Longrightarrow> array_set (bs_arr s) (bs_idx s) x = Inl IndexOutOfBounds"
  by (simp add: laid_out_def)

lemma build_inv_init: "build_inv nf build_init"
  by (simp add: build_inv_def build_init_def laid_out_def)

lemma build_inv_outer:
  assumes inv: "build_inv nf s" and pc: "bs_pc s = Outer_Test"
  shows "build_inv nf (build_step nf s)"
proof (cases "bs_i s < length nf")
  case True
  obtain n f where e: "nf ! bs_i s = (n, f)" by fastforce
  with True pc inv show ?thesis
    by (simp add: build_step_def build_inv_def inner_inv_def laid_out_def)
next
  case False
  with pc inv have "bs_i s = length nf" by (simp add: build_inv_def)
  with pc inv show ?thesis
    by (simp add: build_step_def build_inv_def laid_out_def)
qed

lemma build_inv_inner:
  assumes inv: "build_inv nf s" and pc: "bs_pc s = Inner_Test"
  shows "build_inv nf (build_step nf s)"
proof -
  let ?p = "flatten_weights (take (bs_i s) nf) @ replicate (unat (bs_j s)) (bs_name s)"
  have i: "bs_i s < length nf" and e: "nf ! bs_i s = (bs_name s, bs_freq s)"
    and jf: "bs_j s \<le> bs_freq s" and lo: "laid_out ?p s"
    using inv pc by (simp_all add: build_inv_def inner_inv_def)
  have tk: "take (Suc (bs_i s)) nf = take (bs_i s) nf @ [(bs_name s, bs_freq s)]"
    by (rule take_Suc_entry [OF i e])
  show ?thesis
  proof (cases "bs_j s < bs_freq s")
    case lt: True
    then have j1: "unat (bs_j s + 1) = Suc (unat (bs_j s))" and jl: "unat (bs_j s) < unat (bs_freq s)"
      by (simp_all add: unat_Suc_less word_less_nat_alt)
    show ?thesis
    proof (cases "length ?p < 256")
      case True
      have "?p @ [bs_name s] = flatten_weights (take (bs_i s) nf) @ replicate (unat (bs_j s + 1)) (bs_name s)"
        by (simp add: j1 replicate_append_same)
      with laid_out_write [OF lo True, of "bs_name s"] True lt i e lo pc jl show ?thesis
        by (auto simp: build_step_def build_inv_def inner_inv_def laid_out_def word_le_nat_alt j1)
    next
      case False
      have "weight_total (take (Suc (bs_i s)) nf) \<le> weight_total nf" by (rule weight_total_take_le)
      with False jl tk have "256 < weight_total nf" by simp
      with laid_out_full [OF lo False, of "bs_name s"] False lt pc i e jf lo show ?thesis
        by (simp add: build_step_def build_inv_def inner_inv_def laid_out_def)
    qed
  next
    case False
    with jf have "bs_j s = bs_freq s" by simp
    with i tk lo pc show ?thesis
      by (simp add: build_step_def build_inv_def laid_out_def)
  qed
qed

lemma build_inv_step:
  "build_inv nf s \<Longrightarrow> build_running (bs_pc s) \<Longrightarrow> build_inv nf (build_step nf s)"
  by (cases "bs_pc s") (simp_all add: build_inv_outer build_inv_inner)

lemma build_reach_inv: "build_reach nf s \<Longrightarrow> build_inv nf s"
  by (induction rule: build_reach.induct) (simp_all add: build_inv_init build_inv_step)

subsection \<open>The final state\<close>

lemma flatten_weights_split:
  "i < length nf \<Longrightarrow> nf ! i = (n, f) \<Longrightarrow>
     flatten_weights nf = flatten_weights (take i nf) @ replicate (unat f) n @ flatten_weights (drop (Suc i) nf)"
  by (metis append_take_drop_id take_Suc_entry flatten_weights_append flatten_weights_simps
      append_assoc append_Nil2)

lemma build_run_outcome:
  assumes "build_run nf = Some t"
  shows "build_outcome t = (if weight_total nf \<le> 256
      then Inr (flatten_weights nf @ replicate (256 - weight_total nf) '''')
      else Inl IndexOutOfBounds)"
proof -
  have "build_inv nf t" and fin: "\<not> build_running (bs_pc t)"
    using build_run_reach [OF assms] build_reach_inv by blast+
  then show ?thesis
    by (cases "bs_pc t") (auto simp: build_inv_def laid_out_def build_outcome_def)
qed

lemma build_reach_funpow: "build_reach nf ((build_step nf ^^ k) build_init)"
proof (induction k)
  case 0
  then show ?case by (simp add: build_reach.init)
next
  case (Suc k)
  then show ?case
    by (cases "build_running (bs_pc ((build_step nf ^^ k) build_init))")
      (simp_all add: build_reach.step build_step_final)
qed

lemma replicate_256: "replicate 256 x = x # x # replicate 254 x"
proof -
  have "(256::nat) = Suc (Suc 254)" by simp
  then show ?thesis by (simp only: replicate_Suc)
qed

section \<open>Properties of the machine\<close>

text \<open>
  C27: the two nested loops of \<open>build_instruction_array\<close> stop on every weight
  list: the run of the machine is the state after exactly \<open>2 * len + weights + 1\<close>
  steps (one outer test per entry and one at the end, one inner test per write and one
  per entry), so constant evaluation never diverges.
\<close>

theorem build_run_terminates:
  "build_run nf = Some ((build_step nf ^^ (2 * length nf + weight_total nf + 1)) build_init)"
  using build_run_steps [of nf] by (simp add: build_measure_init)


text \<open>
  C29: loop invariant: in every state the evaluation of \<open>build_instruction_array\<close>
  reaches, the array holds the first \<open>idx\<close> entries of the reference table (each
  mnemonic repeated by its weight) followed by the initial empty strings, and \<open>idx\<close>
  never passes 256 nor the total weight.
\<close>

theorem build_reach_prefix:
  assumes "build_reach nf s"
  shows "bs_idx s \<le> min 256 (weight_total nf) \<and>
    bs_arr s = take (bs_idx s) (flatten_weights nf) @ replicate (256 - bs_idx s) ''''"
proof -
  have inv: "build_inv nf s" using build_reach_inv [OF assms] .
  have inner: "bs_idx s \<le> min 256 (weight_total nf) \<and>
    bs_arr s = take (bs_idx s) (flatten_weights nf) @ replicate (256 - bs_idx s) ''''"
    if "inner_inv nf s"
  proof -
    have i: "bs_i s < length nf" and e: "nf ! bs_i s = (bs_name s, bs_freq s)"
      and jf: "unat (bs_j s) \<le> unat (bs_freq s)"
      and lo: "laid_out (flatten_weights (take (bs_i s) nf) @ replicate (unat (bs_j s)) (bs_name s)) s"
      using that by (simp_all add: inner_inv_def word_le_nat_alt)
    have "weight_total (take (Suc (bs_i s)) nf) \<le> weight_total nf" by (rule weight_total_take_le)
    then have "weight_total (take (bs_i s) nf) + unat (bs_freq s) \<le> weight_total nf"
      by (simp add: take_Suc_entry [OF i e])
    with jf lo show ?thesis
      by (auto simp: laid_out_def flatten_weights_split [OF i e] min_def)
  qed
  show ?thesis
  proof (cases "bs_pc s")
    case Outer_Test
    then have "bs_i s \<le> length nf" and lo: "laid_out (flatten_weights (take (bs_i s) nf)) s"
      using inv by (simp_all add: build_inv_def)
    moreover have "flatten_weights nf = flatten_weights (take (bs_i s) nf) @ flatten_weights (drop (bs_i s) nf)"
      by (metis append_take_drop_id flatten_weights_append)
    moreover note weight_total_take_le [of "bs_i s" nf]
    ultimately show ?thesis by (auto simp: laid_out_def)
  next
    case Returned
    then show ?thesis using inv by (auto simp: build_inv_def laid_out_def)
  qed (use inv inner in \<open>simp_all add: build_inv_def\<close>)
qed

text \<open>
  C30: the evaluation panics only with \<open>IndexOutOfBounds\<close>, only when the weights
  sum past 256, and only at the write to slot 256.
\<close>

theorem build_panics_only_on_overflow:
  assumes "build_reach nf s" and "bs_pc s = Panicked e"
  shows "e = IndexOutOfBounds \<and> 256 < weight_total nf \<and> bs_idx s = 256"
  using build_reach_inv [OF assms(1)] assms(2) by (simp add: build_inv_def)

theorem build_reach_prefix_witness:
  "build_reach NAMES_FREQS ((build_step NAMES_FREQS ^^ 3) build_init) \<and>
   bs_idx ((build_step NAMES_FREQS ^^ 3) build_init) = 2 \<and>
   bs_arr ((build_step NAMES_FREQS ^^ 3) build_init) = [''IADD_RS'', ''IADD_RS''] @ replicate 254 ''''"
proof -
  have r: "build_reach NAMES_FREQS ((build_step NAMES_FREQS ^^ 3) build_init)"
    by (rule build_reach_funpow)
  have s: "(build_step NAMES_FREQS ^^ 3) build_init =
      build_init\<lparr>bs_pc := Inner_Test, bs_arr := [''IADD_RS'', ''IADD_RS''] @ replicate 254 '''',
        bs_idx := 2, bs_name := ''IADD_RS'', bs_freq := 16, bs_j := 2\<rparr>"
    by (simp add: numeral_3_eq_3 build_step_def build_init_def NAMES_FREQS_def replicate_256)
  show ?thesis using build_reach_prefix [OF r] r unfolding s
    by (simp add: build_init_def weight_total_NAMES_FREQS)
qed


theorem build_panics_only_on_overflow_witness:
  "build_reach [(''A'', 255), (''B'', 2)] (the (build_run [(''A'', 255), (''B'', 2)])) \<and>
   bs_pc (the (build_run [(''A'', 255), (''B'', 2)])) = Panicked IndexOutOfBounds \<and>
   256 < weight_total [(''A'', 255), (''B'', 2)] \<and>
   bs_idx (the (build_run [(''A'', 255), (''B'', 2)])) = 256"
proof -
  obtain t where t: "build_run [(''A'', 255), (''B'', 2)] = Some t" using build_run_Some by blast
  have r: "build_reach [(''A'', 255), (''B'', 2)] t" using build_run_reach [OF t] by blast
  have "build_outcome t = Inl IndexOutOfBounds" using build_run_outcome [OF t] by simp
  then have p: "bs_pc t = Panicked IndexOutOfBounds"
    by (cases "bs_pc t") (simp_all add: build_outcome_def)
  show ?thesis using build_panics_only_on_overflow [OF r p] r p t by simp
qed

end
