(* ===== verification/Result_Hash.thy ===== *)
theory Result_Hash
  imports Prelude
begin

text \<open>
  \<open>src/wrapper/src/result_hash.rs\<close>: the trait \<open>ToRawMut\<close> for the hash result buffer
  \<open>ResultHash\<close> of the external crate \<open>ccp_randomx_types\<close>.  The buffer is modelled as
  its bytes; \<open>RANDOMX_RESULT_SIZE\<close> is that crate's constant (32, the RandomX hash
  width).  \<open>empty\<close> is the all-zero buffer.

  \<open>as_raw_mut\<close> hands a raw pointer to the buffer to the native hashing routine, which
  writes the hash through it.  Where the bytes go is a question of aliasing, so memory is
  an explicit store: each allocation (a \<open>nat\<close> identifier) holds its byte list, and a raw
  pointer is an allocation with a byte offset.  \<open>as_raw_mut\<close> is
  \<open>self.as_mut().as_mut_ptr()\<close>: the pointer to byte 0 of the hash's own allocation; the
  cast to \<open>*mut c_void\<close> does not change the address.  The native write
  (\<open>write_bytes\<close>) is the foreign side of the boundary, modelled from the specification:
  it stores its bytes one by one from the pointer on, and a byte that falls past the end
  of the allocation is undefined behaviour, the value \<open>None\<close>.  The trait itself is
  the record \<open>to_raw_mut\<close>; the caller's contract \<open>raw_view_contract\<close> is proved of
  the \<open>ResultHash\<close> impl, and the round trip of the hash is derived from it.
\<close>

definition RANDOMX_RESULT_SIZE :: nat where
  "RANDOMX_RESULT_SIZE = 32"

type_synonym result_hash = "u8 list"

definition result_hash_empty :: result_hash where
  "result_hash_empty = replicate RANDOMX_RESULT_SIZE 0"

section \<open>Raw pointers into a byte store\<close>

datatype raw_ptr = Raw_Ptr (ptr_alloc: nat) (ptr_off: nat)

type_synonym byte_store = "nat \<Rightarrow> u8 list"

text \<open>\<open>as_mut_ptr\<close> of the byte slice of allocation \<open>a\<close>: its first element.\<close>

definition as_raw_mut :: "nat \<Rightarrow> raw_ptr" where
  "as_raw_mut h = Raw_Ptr h 0"

fun write_bytes :: "byte_store \<Rightarrow> raw_ptr \<Rightarrow> u8 list \<Rightarrow> byte_store option" where
  "write_bytes st p [] = Some st"
| "write_bytes st (Raw_Ptr a k) (b # bs) =
     (if k < length (st a) then write_bytes (st(a := (st a)[k := b])) (Raw_Ptr a (Suc k)) bs
      else None)"

section \<open>The trait\<close>

text \<open>
  \<open>trait ToRawMut { fn empty() -> Self; fn as_raw_mut(&mut self) -> *mut c_void; }\<close> as
  the record of its two operations over the implementing type \<open>'h\<close>; \<open>as_raw_mut\<close>
  receives the allocation that holds \<open>self\<close>.  The implementation for \<open>ResultHash\<close> is
  \<open>result_hash_to_raw_mut\<close>.  \<open>raw_view_contract n\<close> is what a caller that hands the
  pointer to the native routine relies on: \<open>empty()\<close> has \<open>n\<close> bytes and the pointer is
  byte 0 of the value's own allocation.
\<close>

record 'h to_raw_mut =
  trm_empty :: 'h
  trm_as_raw_mut :: "nat \<Rightarrow> raw_ptr"

definition result_hash_to_raw_mut :: "result_hash to_raw_mut" where
  "result_hash_to_raw_mut = \<lparr>trm_empty = result_hash_empty, trm_as_raw_mut = as_raw_mut\<rparr>"

definition raw_view_contract :: "nat \<Rightarrow> u8 list to_raw_mut \<Rightarrow> bool" where
  "raw_view_contract n t \<longleftrightarrow>
     length (trm_empty t) = n \<and> (\<forall>h. trm_as_raw_mut t h = Raw_Ptr h 0)"

section \<open>Lemmas\<close>

lemma length_result_hash_empty [simp]: "length result_hash_empty = RANDOMX_RESULT_SIZE"
  by (simp add: result_hash_empty_def)

text \<open>A native write lays its bytes over the allocation from the offset on, or faults.\<close>

lemma write_bytes_eq:
  "write_bytes st (Raw_Ptr a k) bs =
     (if bs \<noteq> [] \<and> length (st a) < k + length bs then None
      else Some (st(a := take k (st a) @ bs @ drop (k + length bs) (st a))))"
proof (induction bs arbitrary: st k)
  case Nil
  then show ?case by (simp add: fun_upd_idem)
next
  case (Cons b bs)
  show ?case
  proof (cases "k < length (st a)")
    case True
    with Cons.IH show ?thesis
      by (auto simp: upd_conv_take_nth_drop take_Cons' drop_Cons' min_def fun_eq_iff add.commute)
  next
    case False
    then show ?thesis by simp
  qed
qed

text \<open>
  The caller's side, for any implementation of the contract: a native write of \<open>n\<close>
  bytes through the pointer of a fresh \<open>empty()\<close> value fills exactly that value.
\<close>

lemma contract_write_empty:
  assumes "raw_view_contract n t" and "length out = n"
  shows "write_bytes (st(h := trm_empty t)) (trm_as_raw_mut t h) out = Some (st(h := out))"
  using assms by (simp add: raw_view_contract_def write_bytes_eq)

lemma result_hash_contract: "raw_view_contract RANDOMX_RESULT_SIZE result_hash_to_raw_mut"
  by (simp add: raw_view_contract_def result_hash_to_raw_mut_def as_raw_mut_def)

section \<open>Properties of the raw view\<close>

text \<open>
  C31: the raw view of an empty hash is where the hash goes: a native write of a full
  \<open>RANDOMX_RESULT_SIZE\<close>-byte result through \<open>as_raw_mut\<close> of \<open>ResultHash::empty()\<close>
  succeeds, leaves exactly that result in the hash, and touches no other allocation.
\<close>

theorem as_raw_mut_roundtrip:
  assumes "length out = RANDOMX_RESULT_SIZE"
  shows "write_bytes (st(h := result_hash_empty)) (as_raw_mut h) out = Some (st(h := out))"
  using contract_write_empty [OF result_hash_contract assms]
  by (simp add: result_hash_to_raw_mut_def)

theorem as_raw_mut_roundtrip_witness:
  "length (replicate 32 (7::u8)) = RANDOMX_RESULT_SIZE \<and>
   write_bytes ((\<lambda>_. [])(0 := result_hash_empty)) (as_raw_mut 0) (replicate 32 7) =
     Some ((\<lambda>_. [])(0 := replicate 32 7))"
proof -
  have l: "length (replicate 32 (7::u8)) = RANDOMX_RESULT_SIZE" by (simp add: RANDOMX_RESULT_SIZE_def)
  show ?thesis using as_raw_mut_roundtrip [OF l, of "\<lambda>_. []" 0] l by simp
qed

end
