(* ===== verification/Spec2Isabelle.thy ===== *)
theory Spec2Isabelle
  imports Disassembler_Readback Build_Machine Result_Hash
begin

text \<open>
  \<^bold>\<open>A verification model of the instruction layer of the ironlight RandomX VM.\<close>

  \<^bold>\<open>The program.\<close>  \<open>src/ironlight/src/instruction.rs\<close> holds the instruction word
  of the VM and everything that is decoded from it.  \<open>Instruction\<close> is an 8-byte
  \<open>repr(C)\<close> struct of four bytes (\<open>opcode\<close>, \<open>dst\<close>, \<open>src\<close>, \<open>mod_\<close>) and a
  \<open>u32\<close> immediate.  The opcode byte selects a mnemonic from \<open>INSTR_NAMES\<close>, a
  256-entry table that the \<open>const fn build_instruction_array\<close> builds at compile time from
  the weight list \<open>NAMES_FREQS\<close> by two nested \<open>while\<close> loops.  The modifier byte is
  split into a memory mode, a shift and a condition level by \<open>get_mod_mem\<close>,
  \<open>get_mod_shift\<close>, \<open>get_mod_cond\<close>; \<open>get_address_reg\<close> and
  \<open>get_address_reg_dst\<close> turn it into the label of the address space a load or a store
  uses, the latter against the crate constant \<open>STORE_L3_CONDITION\<close>.
  \<open>impl Display for Instruction\<close> reduces the register fields modulo
  \<open>REGISTER_COUNT\<close>, looks the mnemonic up and renders one template per mnemonic family.
  \<open>src/wrapper/src/result_hash.rs\<close> gives the hash result buffer of the RandomX library
  an all-zero constructor and a raw pointer view for the native hashing routine.

  \<^bold>\<open>The theories.\<close>
  \<^item> \<open>Prelude\<close>: the Rust types as words (\<open>u8\<close>, \<open>u32\<close>, \<open>i32\<close>), the panics
    (\<open>IndexOutOfBounds\<close>, \<open>RemainderByZero\<close>) as the left side of a sum type
    \<open>'a res\<close>, Rust's array write \<open>array_set\<close> and unsigned remainder \<open>rem_u8\<close>, and
    the shared list and word lemmas.
  \<^item> \<open>Rust_Fmt\<close>: \<open>{}\<close> on \<open>u8\<close>, \<open>u32\<close>, \<open>i32\<close> (decimal, a sign for negative
    \<open>i32\<close>), which the templates use; it is standard-library behaviour, modelled so that
    the templates produce concrete text, with a parser that reads a printed number back.
  \<^item> \<open>Instruction\<close>: the struct as the record \<open>instruction\<close> (the field \<open>mod_\<close> is
    \<open>mod_byte\<close>), \<open>new\<close> and \<open>default\<close>, the accessors, the labels and the two address
    resolvers (\<open>instruction.rs\<close> lines 20 to 144); the two constants that come from
    modules outside the sources (\<open>REGISTER_COUNT\<close>, \<open>STORE_L3_CONDITION\<close>) are fields of
    the record \<open>vm_config\<close>, so every lemma holds for every value of them, and
    \<open>randomx_config\<close> holds the reference VM's values 8 and 14 for the examples; the
    field list \<open>INSTRUCTION_FIELDS\<close> with the \<open>repr(C)\<close> layout rules
    (\<open>field_offsets\<close>, \<open>struct_size\<close>) that place it in memory; an abstract view of the modifier
    (\<open>modifier_fields\<close>, \<open>load_space\<close>, \<open>store_space\<close>) that the accessors refine.
  \<^item> \<open>Opcode_Table\<close>: \<open>NAMES_FREQS\<close>, the inner loop \<open>fill_name\<close> and the outer loop
    \<open>fill_all\<close> of \<open>build_instruction_array\<close> (state tuples \<open>(arr, idx, j)\<close> and
    \<open>(arr, idx, i)\<close>, terminating by the measures \<open>freq - j\<close> and \<open>len - i\<close>), and
    \<open>INSTR_NAMES\<close>; the reference \<open>flatten_weights\<close> repeats each mnemonic by its weight.
  \<^item> \<open>Build_Machine\<close>: the same two loops as the small-step evaluation of the
    \<open>const fn\<close>: the record \<open>build_state\<close> holds every local (\<open>arr\<close>, \<open>idx\<close>,
    \<open>i\<close>, \<open>name\<close>, \<open>freq\<close>, \<open>j\<close>) and the control location \<open>build_pc\<close> (the
    outer test, the inner test, returned, panicked); \<open>build_step\<close> runs one loop test and
    the body after it; \<open>build_run\<close> is the \<open>while_option\<close> of the steps from
    \<open>build_init\<close>; \<open>build_reach\<close> is the inductive set of reachable states.
  \<^item> \<open>Disassembler\<close>: \<open>instruction_fmt\<close> is \<open>fmt\<close> (the two \<open>%\<close> then the
    \<open>match\<close>), \<open>render_match\<close> the \<open>match\<close> itself, with the or-patterns of its two
    big arms as \<open>TWO_REG_NAMES\<close> and \<open>REG_MEM_NAMES\<close>.
  \<^item> \<open>Disassembler\<close> also holds the abstract specification of the rendering: the
    closed set of families \<open>render_family\<close>, the classification \<open>classify\<close> of a
    mnemonic and the family templates \<open>spec_line\<close> over natural-number register indices.
  \<^item> \<open>Disassembler_Readback\<close>: what a line says.  \<open>line_view\<close> is the abstract
    content of the line of an instruction (family, register indices modulo the count,
    store space, and the immediate as the raw 32-bit pattern, whether it is printed
    signed or unsigned), \<open>print_view\<close> prints a view with one template per constructor,
    and \<open>parse_line\<close> is an executable reader of lines.
  \<^item> \<open>Result_Hash\<close>: \<open>ResultHash::empty\<close> as the all-zero byte buffer, and
    \<open>as_raw_mut\<close> in an explicit byte store (allocations holding byte lists, raw
    pointers as an allocation and an offset): the pointer to byte 0 of the hash.  The
    native routine that writes the hash through it is the boundary of the specification,
    \<open>write_bytes\<close>, with a write past the allocation as the value \<open>None\<close>.  The trait
    \<open>ToRawMut\<close> is the record \<open>to_raw_mut\<close> of its two operations, the impl for
    \<open>ResultHash\<close> is \<open>result_hash_to_raw_mut\<close>, and \<open>raw_view_contract\<close> is what a
    caller of the trait relies on, proved of the impl.
  \<^item> \<open>Spec2Isabelle\<close> (this theory): the properties that span the components.

  \<^bold>\<open>What is proved.\<close>  The table loops compute the reference table or panic exactly
  when the weights exceed 256 (C1); with the declared weights the table is total,
  exactly the reference, every opcode resolves to a declared non-empty mnemonic, each
  mnemonic owns exactly its weight of opcodes, in declaration order (C2 to C5).  The
  disassembler panics exactly when \<open>REGISTER_COUNT\<close> is a multiple of 256 and is total
  otherwise (C6); the subtract special case, the store template and the other families
  render their templates with the register fields reduced modulo the count (C7, C8,
  C19, C20); the modifier accessors are in range, refine the arithmetic decomposition of
  the byte and recompose it (C9 to C12); loads never use \<open>L3\<close> and stores differ from
  loads exactly at or above the threshold (C14 to C16); the layout that the
  \<open>repr(C, align(8))\<close> rules give the declared fields puts the four bytes at offsets 0
  to 3 and the immediate at 4, in eight bytes with no padding (C17).  Every rendered
  line starts with its mnemonic (C18); seen through the disassembly, each mnemonic
  still owns exactly its weight of the 256 opcodes (C22, combining the table and the
  renderer).  Every line can be read back by \<open>parse_line\<close> to the view of its
  instruction (C13), and two instructions print the same line exactly when their views
  agree, so the signed store offset and the unsigned branch target each determine the
  raw immediate (C21).  Two findings are proved as behaviour of the code: the negate
  template names a register by the raw byte (C23), and only the register count modulo
  256 matters (C24).  The disassembler refines the abstract family templates for every
  register count in 1..255 (C25), and no opcode of the table reaches the default arm of
  the match, so no line is the bare mnemonic (C26).  The small-step evaluation of the
  table builder stops on every weight list after exactly \<open>2 * len + weights + 1\<close>
  steps (C27) and returns the reference table, or panics exactly when the weights sum
  past 256 (C28); by rule induction over the reachable states, the array is always a
  prefix of the reference table followed by empty strings (C29), and a panic happens
  only at slot 256 of an overweight list (C30).  A full-width native write through
  \<open>as_raw_mut\<close> of an empty hash fills exactly the hash (C31), derived from the trait
  contract that the impl satisfies.

  \<^bold>\<open>Bounds and fuel.\<close>  No fuel is used: both loops are total functions with a
  termination proof, so the table construction is proved to terminate; the small-step
  run is a \<open>while_option\<close>, proved to return by the measure \<open>build_measure\<close> (two steps
  per remaining entry, one per remaining write, one for the final test).  Lemmas about
  the register count assume \<open>0 < REGISTER_COUNT < 256\<close>, the range in which
  \<open>REGISTER_COUNT as u8\<close> does not truncate; C6 covers the other counts.

  \<^bold>\<open>Not modelled.\<close>  The interpreter, the memory hierarchy, the dataset and the hash
  finalisation are outside the sources.  Every function, method, constant and trait of the two
  source files is modelled.  \<open>REGISTER_COUNT\<close> and
  \<open>STORE_L3_CONDITION\<close> are defined in modules that are not among the sources; they
  stay parameters (\<open>vm_config\<close>), so those constants are modelled only at their use.
  \<open>core::fmt\<close> is the standard library: only the decimal printing of \<open>u8\<close>, \<open>u32\<close>
  and \<open>i32\<close> that the templates use is modelled, not the \<open>Formatter\<close> machinery.  The \<open>ResultHash\<close> type and
  \<open>RANDOMX_RESULT_SIZE\<close> come from \<open>ccp_randomx_types\<close>; the hash is its byte list
  and the native writer is modelled only at its boundary.  The \<open>fmt::Formatter\<close>'s own
  write errors come from the caller's sink.  The layout rules of \<open>repr(C)\<close> are those
  of the Rust reference, written as definitions; the byte order inside the immediate is
  the target's and is not modelled.
\<close>

section \<open>Properties across the components\<close>

lemma get_address_reg_dst_count [simp]:
  "get_address_reg_dst (cfg\<lparr>REGISTER_COUNT := n\<rparr>) i = get_address_reg_dst cfg i"
  by (simp add: get_address_reg_dst_def)

lemma register_count_u8_mod: "(of_nat (n mod 256) :: u8) = of_nat n"
  by (simp add: word_unat_eq_iff unat_register_count)

lemma INSTR_NAMES_INEG_R: "INSTR_NAMES ! 84 = ''INEG_R''"
  using INSTR_NAMES_nth [of 11 84] by (simp add: NAMES_FREQS_def)

text \<open>
  C23: the negate template prints the raw \<open>dst\<close> byte after the register prefix
  \<open>r\<close>, not reduced modulo the register count as every other register operand is: an
  \<open>INEG_R\<close> instruction renders as \<open>INEG_R r<dst>\<close>.
\<close>

theorem fmt_ineg_unreduced:
  assumes "INSTR_NAMES ! unat (opcode i) = ''INEG_R''" and "REGISTER_COUNT cfg mod 256 \<noteq> 0"
  shows "instruction_fmt cfg i = Inr (''INEG_R r'' @ dec_nat (unat (dst i)))"
  using assms by (simp add: instruction_fmt_Inr render_match_def display_u8_def)

theorem fmt_ineg_unreduced_witness:
  "INSTR_NAMES ! unat (opcode (instruction_new 84 9 0 0 0)) = ''INEG_R'' \<and>
   REGISTER_COUNT randomx_config mod 256 \<noteq> 0 \<and>
   instruction_fmt randomx_config (instruction_new 84 9 0 0 0) = Inr ''INEG_R r9'' \<and>
   REGISTER_COUNT randomx_config \<le> 9"
proof -
  have n: "INSTR_NAMES ! unat (opcode (instruction_new 84 9 0 0 0)) = ''INEG_R''"
    by (simp add: instruction_new_def INSTR_NAMES_INEG_R)
  have c: "REGISTER_COUNT randomx_config mod 256 \<noteq> 0" by (simp add: randomx_config_def)
  show ?thesis
    using fmt_ineg_unreduced [OF n c] n c
    by (simp add: instruction_new_def randomx_config_def dec_nat.simps digit_char_def)
qed

text \<open>
  C24: only \<open>REGISTER_COUNT\<close> modulo 256 reaches the rendering: the cast
  \<open>REGISTER_COUNT as u8\<close> truncates, so a count of 264 renders exactly as a count of 8.
\<close>

theorem fmt_register_count_truncated:
  "instruction_fmt cfg i = instruction_fmt (cfg\<lparr>REGISTER_COUNT := REGISTER_COUNT cfg mod 256\<rparr>) i"
  by (simp add: instruction_fmt_def rem_u8_def register_count_u8_mod render_match_def)

lemma fmt_first_word_opcode:
  assumes "REGISTER_COUNT cfg mod 256 \<noteq> 0"
  shows "(\<exists>l. instruction_fmt cfg i = Inr l \<and> takeWhile (\<lambda>c. c \<noteq> CHR '' '') l = n) \<longleftrightarrow>
    INSTR_NAMES ! unat (opcode i) = n"
  using assms mnemonic_no_space [of "opcode i"]
  by (simp add: instruction_fmt_Inr render_match_first_word)

text \<open>
  C22: the opcode distribution as it shows in the disassembly: for every declared
  mnemonic and any fixed operands, exactly as many of the 256 opcode bytes produce a
  line whose first word is that mnemonic as the mnemonic's declared weight, for every
  register count that does not make the rendering panic.
\<close>

theorem fmt_mnemonic_distribution:
  assumes "(n, f) \<in> set NAMES_FREQS" and "REGISTER_COUNT cfg mod 256 \<noteq> 0"
  shows "card {op::u8. \<exists>l. instruction_fmt cfg (instruction_new op d s m imm) = Inr l \<and>
      takeWhile (\<lambda>c. c \<noteq> CHR '' '') l = n} = unat f"
proof -
  have "{op::u8. \<exists>l. instruction_fmt cfg (instruction_new op d s m imm) = Inr l \<and>
      takeWhile (\<lambda>c. c \<noteq> CHR '' '') l = n} = {op::u8. INSTR_NAMES ! unat op = n}"
    using fmt_first_word_opcode [OF assms(2)] by (simp add: instruction_new_def)
  then show ?thesis by (simp add: card_opcodes_name count_INSTR_NAMES [OF assms(1)])
qed

theorem fmt_mnemonic_distribution_witness:
  "(''FMUL_R'', 32) \<in> set NAMES_FREQS \<and> REGISTER_COUNT randomx_config mod 256 \<noteq> 0 \<and>
   card {op::u8. \<exists>l. instruction_fmt randomx_config (instruction_new op 0 0 0 0) = Inr l \<and>
      takeWhile (\<lambda>c. c \<noteq> CHR '' '') l = ''FMUL_R''} = 32"
proof -
  have m: "(''FMUL_R'', 32) \<in> set NAMES_FREQS" by (simp add: NAMES_FREQS_def)
  have c: "REGISTER_COUNT randomx_config mod 256 \<noteq> 0" by (simp add: randomx_config_def)
  show ?thesis using fmt_mnemonic_distribution [OF m c, of 0 0 0 0] m c by simp
qed

end
